theory Spec2Isabelle
  imports Main "HOL-Library.Word"
begin

unbundle bit_operations_syntax

section \<open>Certificate chain extractor (\<open>src/main.go\<close>)\<close>

text \<open>
  A shallow embedding of the Go program \<open>src/main.go\<close>. Go strings are byte
  sequences; they are modelled as \<open>string\<close> (a list of 8-bit characters). Go's
  \<open>int\<close> is taken to be 64 bits wide. Functions of the Go standard library that the
  program calls (\<open>strings\<close>, \<open>strconv\<close>, \<open>net\<close>, \<open>regexp\<close>,
  \<open>encoding/pem\<close>) are modelled after their documented behaviour and carry the
  library's names. Output on the terminal (\<open>fmt.Printf\<close>) is not modelled.
\<close>

subsection \<open>Package \<open>strings\<close>\<close>

definition HasPrefix :: "string \<Rightarrow> string \<Rightarrow> bool" where
  "HasPrefix s pre = (take (length pre) s = pre)"

definition TrimPrefix :: "string \<Rightarrow> string \<Rightarrow> string" where
  "TrimPrefix s pre = (if HasPrefix s pre then drop (length pre) s else s)"

text \<open>\<open>strings.Index\<close>: position of the first occurrence, \<open>None\<close> for Go's \<open>-1\<close>.\<close>

fun Index :: "string \<Rightarrow> string \<Rightarrow> nat option" where
  "Index [] sep = (if sep = [] then Some 0 else None)"
| "Index (c # cs) sep =
     (if HasPrefix (c # cs) sep then Some 0 else map_option Suc (Index cs sep))"

definition Contains :: "string \<Rightarrow> string \<Rightarrow> bool" where
  "Contains s sep = (Index s sep \<noteq> None)"

subsection \<open>File names of individual certificates\<close>

text \<open>
  The fields of \<open>x509.Certificate\<close> the program reads: the DER bytes, the subject's
  common name and the DNS names of the subject alternative name extension.
\<close>

record certificate =
  Raw :: "8 word list"
  CommonName :: string
  DNSNames :: "string list"

text \<open>
  \<open>regexp\<close> reads its input rune by rune. \<open>runeWidth\<close> is the number of bytes
  \<open>utf8.DecodeRuneInString\<close> consumes at the head of a non-empty string: the length
  of a well-formed UTF-8 sequence, and 1 for a byte that starts none (which the matcher
  sees as U+FFFD).
\<close>

definition byteIn :: "string \<Rightarrow> nat \<Rightarrow> nat \<Rightarrow> nat \<Rightarrow> bool" where
  "byteIn s i lo hi = (i < length s \<and> lo \<le> (of_char (s ! i) :: nat) \<and> (of_char (s ! i) :: nat) \<le> hi)"

definition runeWidth :: "string \<Rightarrow> nat" where
  "runeWidth s =
     (let b = (of_char (hd s) :: nat) in
      if b < 0x80 then 1
      else if b < 0xC2 then 1
      else if b \<le> 0xDF then (if byteIn s 1 0x80 0xBF then 2 else 1)
      else if b \<le> 0xEF then
        (if byteIn s 1 (if b = 0xE0 then 0xA0 else 0x80) (if b = 0xED then 0x9F else 0xBF)
            \<and> byteIn s 2 0x80 0xBF then 3 else 1)
      else if b \<le> 0xF4 then
        (if byteIn s 1 (if b = 0xF0 then 0x90 else 0x80) (if b = 0xF4 then 0x8F else 0xBF)
            \<and> byteIn s 2 0x80 0xBF \<and> byteIn s 3 0x80 0xBF then 4 else 1)
      else 1)"

text \<open>The character class \<open>[a-zA-Z0-9\-\._]\<close> that the pattern negates.\<close>

definition allowedChar :: "char \<Rightarrow> bool" where
  "allowedChar c =
     (c \<in> set ''abcdefghijklmnopqrstuvwxyzABCDEFGHIJKLMNOPQRSTUVWXYZ0123456789-._'')"

text \<open>
  \<open>re.ReplaceAllString(name, "_")\<close> for the pattern \<open>[^a-zA-Z0-9\-\._]\<close>: every rune
  outside the class is replaced by one underscore.
\<close>

function ReplaceAllString :: "string \<Rightarrow> string" where
  "ReplaceAllString [] = []"
| "ReplaceAllString (c # cs) =
     (if allowedChar c then c # ReplaceAllString cs
      else CHR ''_'' # ReplaceAllString (drop (runeWidth (c # cs) - 1) cs))"
  by pat_completeness auto
termination
  by (relation "measure length") auto

definition sanitizeFilename :: "string \<Rightarrow> string" where
  "sanitizeFilename name =
     (let cleaned = ReplaceAllString name;
          cleaned = TrimPrefix cleaned ''*.''
      in cleaned)"

text \<open>\<open>fmt.Sprintf("%d", n)\<close> for a non-negative \<open>n\<close>.\<close>

fun digits :: "nat \<Rightarrow> string" where
  "digits n =
     (if n < 10 then [char_of (48 + n)] else digits (n div 10) @ [char_of (48 + n mod 10)])"

definition generateCertFilename :: "certificate \<Rightarrow> nat \<Rightarrow> string" where
  "generateCertFilename cert index =
     (if CommonName cert \<noteq> [] then sanitizeFilename (CommonName cert) @ ''.crt''
      else if length (DNSNames cert) > 0 then sanitizeFilename (hd (DNSNames cert)) @ ''.crt''
      else ''cert_'' @ digits index @ ''.crt'')"

subsection \<open>Resolving the target\<close>

text \<open>
  \<open>strings.ToLower\<close> on ASCII letters. Go maps bytes outside ASCII through the Unicode
  case tables, which are not modelled: such bytes are kept. No statement below depends on
  the scheme of a target with non-ASCII bytes before \<open>://\<close>.
\<close>

definition toLowerByte :: "char \<Rightarrow> char" where
  "toLowerByte c =
     (if 65 \<le> (of_char c :: nat) \<and> (of_char c :: nat) \<le> 90 then char_of ((of_char c :: nat) + 32)
      else c)"

definition ToLower :: "string \<Rightarrow> string" where
  "ToLower s = map toLowerByte s"

text \<open>
  \<open>strings.SplitN(s, sep, 2)\<close> for a non-empty separator: the text before and after
  the first occurrence, or the string alone when there is none.
\<close>

definition SplitN2 :: "string \<Rightarrow> string \<Rightarrow> string list" where
  "SplitN2 s sep =
     (case Index s sep of
        None \<Rightarrow> [s]
      | Some i \<Rightarrow> [take i s, drop (i + length sep) s])"

fun IndexByte :: "string \<Rightarrow> char \<Rightarrow> nat option" where
  "IndexByte [] b = None"
| "IndexByte (c # cs) b = (if c = b then Some 0 else map_option Suc (IndexByte cs b))"

definition LastIndexByte :: "string \<Rightarrow> char \<Rightarrow> nat option" where
  "LastIndexByte s b =
     (case IndexByte (rev s) b of
        None \<Rightarrow> None
      | Some j \<Rightarrow> Some (length s - 1 - j))"

text \<open>
  The errors of the program. \<open>AddrError why addr\<close> is \<open>net.AddrError\<close>;
  \<open>InvalidPort\<close> is the program's own \<open>invalid port: ...\<close>; \<open>IndexOutOfRange\<close> is
  the run-time panic of an out-of-range index.
\<close>

datatype error =
    AddrError string string
  | InvalidPort string
  | IndexOutOfRange
  | DialError
  | SMTPError
  | ReadGreetingError
  | UnsupportedProtocol string
  | SendSTARTTLSError
  | ReadSTARTTLSError
  | HandshakeError
  | CreateError string
  | WriteError string

text \<open>
  \<open>strconv.Atoi\<close>: an optional sign and at least one decimal digit, the value within
  the range of \<open>int\<close>. \<open>None\<close> stands for \<open>*NumError\<close>, whose kind (syntax or
  range) the program does not inspect.
\<close>

definition intSize :: nat where
  "intSize = 64"

definition isDigit :: "char \<Rightarrow> bool" where
  "isDigit c = (c \<in> set ''0123456789'')"

definition digitsValue :: "string \<Rightarrow> int" where
  "digitsValue s = foldl (\<lambda>n ch. n * 10 + ((of_char ch :: int) - 48)) 0 s"

definition Atoi :: "string \<Rightarrow> int option" where
  "Atoi s =
     (let neg = (s \<noteq> [] \<and> hd s = CHR ''-'');
          ds = (if s \<noteq> [] \<and> (hd s = CHR ''-'' \<or> hd s = CHR ''+'') then tl s else s)
      in if ds = [] then None
         else if \<not> list_all isDigit ds then None
         else if neg then
           (if digitsValue ds > 2 ^ (intSize - 1) then None else Some (- digitsValue ds))
         else
           (if digitsValue ds > 2 ^ (intSize - 1) - 1 then None else Some (digitsValue ds)))"

text \<open>\<open>net.SplitHostPort\<close>, case by case as the library has it.\<close>

definition SplitHostPort :: "string \<Rightarrow> error + (string \<times> string)" where
  "SplitHostPort hostport =
     (case LastIndexByte hostport CHR '':'' of
        None \<Rightarrow> Inl (AddrError ''missing port in address'' hostport)
      | Some i \<Rightarrow>
          let finish = (\<lambda>host j k.
                if IndexByte (drop j hostport) CHR ''['' \<noteq> None
                  then Inl (AddrError (''unexpected '' @ [CHR 0x27, CHR ''['', CHR 0x27] @ '' in address'') hostport)
                else if IndexByte (drop k hostport) CHR '']'' \<noteq> None
                  then Inl (AddrError (''unexpected '' @ [CHR 0x27, CHR '']'', CHR 0x27] @ '' in address'') hostport)
                else Inr (host, drop (i + 1) hostport))
          in if hd hostport = CHR ''['' then
               (case IndexByte hostport CHR '']'' of
                  None \<Rightarrow> Inl (AddrError (''missing '' @ [CHR 0x27, CHR '']'', CHR 0x27] @ '' in address'') hostport)
                | Some end \<Rightarrow>
                    if end + 1 = length hostport
                      then Inl (AddrError ''missing port in address'' hostport)
                    else if end + 1 = i
                      then finish (take (end - 1) (drop 1 hostport)) 1 (end + 1)
                    else if hostport ! (end + 1) = CHR '':''
                      then Inl (AddrError ''too many colons in address'' hostport)
                    else Inl (AddrError ''missing port in address'' hostport))
             else
               (let host = take i hostport
                in if IndexByte host CHR '':'' \<noteq> None
                     then Inl (AddrError ''too many colons in address'' hostport)
                   else finish host 0 0))"

text \<open>The host-and-port part shared by both branches of \<open>parseTarget\<close> that split.\<close>

definition splitAndParse :: "string \<Rightarrow> string \<Rightarrow> error + (string \<times> int \<times> string)" where
  "splitAndParse hostport protocol =
     (case SplitHostPort hostport of
        Inl splitErr \<Rightarrow> Inl splitErr
      | Inr (host, portStr) \<Rightarrow>
          (case Atoi portStr of
             None \<Rightarrow> Inl (InvalidPort portStr)
           | Some port \<Rightarrow> Inr (host, port, protocol)))"

definition defaultPort :: "string \<Rightarrow> int" where
  "defaultPort protocol =
     (if protocol = ''https'' then 443
      else if protocol = ''smtp'' then 587
      else if protocol = ''imap'' then 143
      else if protocol = ''pop3'' then 110
      else 443)"

text \<open>The result is \<open>(server, port, protocol)\<close>, or the error returned.\<close>

definition parseTarget :: "string \<Rightarrow> error + (string \<times> int \<times> string)" where
  "parseTarget target =
     (if Contains target ''://'' then
        (case SplitN2 target ''://'' of
           [p0, p1] \<Rightarrow>
             let protocol = ToLower p0;
                 serverPart = (case Index p1 ''/'' of Some idx \<Rightarrow> take idx p1 | None \<Rightarrow> p1)
             in if Contains serverPart '':'' then splitAndParse serverPart protocol
                else Inr (serverPart, defaultPort protocol, protocol)
         | _ \<Rightarrow> Inl IndexOutOfRange)
      else if Contains target '':'' then splitAndParse target ''https''
      else Inr (target, 443, ''https''))"

subsection \<open>PEM encoding\<close>

text \<open>
  \<open>base64.StdEncoding\<close>: three bytes are packed into a \<open>uint\<close> and give four
  characters of the alphabet, six bits each; a last group of one or two bytes is padded
  with \<open>=\<close>.
\<close>

definition encodeStd :: string where
  "encodeStd = ''ABCDEFGHIJKLMNOPQRSTUVWXYZabcdefghijklmnopqrstuvwxyz0123456789+/''"

definition sextet :: "64 word \<Rightarrow> nat \<Rightarrow> char" where
  "sextet val shift = encodeStd ! unat (drop_bit shift val AND 0x3F)"

fun EncodeToString :: "8 word list \<Rightarrow> string" where
  "EncodeToString (a # b # c # rest) =
     (let val = push_bit 16 (ucast a) OR push_bit 8 (ucast b) OR ucast c
      in [sextet val 18, sextet val 12, sextet val 6, sextet val 0] @ EncodeToString rest)"
| "EncodeToString [a, b] =
     (let val = push_bit 16 (ucast a) OR push_bit 8 (ucast b)
      in [sextet val 18, sextet val 12, sextet val 6, CHR ''=''])"
| "EncodeToString [a] =
     (let val = push_bit 16 (ucast a)
      in [sextet val 18, sextet val 12, CHR ''='', CHR ''=''])"
| "EncodeToString [] = []"

definition nl :: string where
  "nl = [CHR 0x0A]"

definition pemLineLength :: nat where
  "pemLineLength = 64"

text \<open>\<open>lineBreaker\<close>: lines of 64 characters, every line ended by a newline.\<close>

function lineBreaker :: "string \<Rightarrow> string" where
  "lineBreaker s =
     (if s = [] then []
      else take pemLineLength s @ nl @ lineBreaker (drop pemLineLength s))"
  by pat_completeness auto
termination
  by (relation "measure length") (auto simp: pemLineLength_def)

text \<open>The text \<open>pem.Encode\<close> writes for a block without headers.\<close>

definition pemBlock :: "string \<Rightarrow> 8 word list \<Rightarrow> string" where
  "pemBlock type bytes =
     ''-----BEGIN '' @ type @ ''-----'' @ nl
       @ lineBreaker (EncodeToString bytes)
       @ ''-----END '' @ type @ ''-----'' @ nl"

subsection \<open>The world: network and disk\<close>

text \<open>
  The program talks to a peer and writes files. Both are made explicit in a \<open>world\<close>
  that every operation takes and returns.

  \<^item> \<open>replies\<close> says how the network answers the successive network operations: each
    operation that waits for the network takes the next reply, and fails when the reply
    is not the one it needs or when none is left (the peer is silent until the timeout).
  \<^item> \<open>trace\<close> records the network operations in the order the program performs them;
    \<open>conns\<close> counts the TCP connections opened so far, and numbers them.
  \<^item> \<open>files\<close> maps the name of each file on disk to its contents.
  \<^item> \<open>faults\<close> says how the successive file creations and writes end: \<open>Succeeds\<close>, or
    \<open>Fails n\<close> with \<open>n\<close> bytes written before the failure. When the list is used up,
    operations succeed.
\<close>

datatype reply = Refuse | Accept | Peer "certificate list"

datatype event =
    Dial string
  | Read nat
  | Write nat string
  | Handshake nat
  | Close nat
  | SMTPNewClient nat
  | SMTPStartTLS nat
  | SMTPQuit nat

datatype outcome = Succeeds | Fails nat

record world =
  replies :: "reply list"
  trace :: "event list"
  conns :: nat
  files :: "string \<rightharpoonup> string"
  faults :: "outcome list"

definition emit :: "event \<Rightarrow> world \<Rightarrow> world" where
  "emit e w = w\<lparr>trace := trace w @ [e]\<rparr>"

definition respond :: "world \<Rightarrow> reply \<times> world" where
  "respond w =
     (case replies w of
        [] \<Rightarrow> (Refuse, w)
      | r # rs \<Rightarrow> (r, w\<lparr>replies := rs\<rparr>))"

definition fault :: "world \<Rightarrow> outcome \<times> world" where
  "fault w =
     (case faults w of
        [] \<Rightarrow> (Succeeds, w)
      | out # outs \<Rightarrow> (out, w\<lparr>faults := outs\<rparr>))"

subsection \<open>Writing the files\<close>

text \<open>
  \<open>os.Stat(name)\<close> returns no error: the name exists. A name that is on disk is
  always found; names are compared as they are written, and links are not modelled.
\<close>

definition osStat :: "string \<Rightarrow> world \<Rightarrow> bool" where
  "osStat name w = (files w name \<noteq> None)"

text \<open>\<open>os.Create\<close> creates the file, or truncates the one that is there.\<close>

definition osCreate :: "string \<Rightarrow> world \<Rightarrow> (error + unit) \<times> world" where
  "osCreate name w =
     (case fault w of
        (Succeeds, w1) \<Rightarrow> (Inr (), w1\<lparr>files := (files w1)(name \<mapsto> [])\<rparr>)
      | (Fails n, w1) \<Rightarrow> (Inl (CreateError name), w1))"

definition appendTo :: "string \<Rightarrow> string \<Rightarrow> world \<Rightarrow> world" where
  "appendTo name data w =
     w\<lparr>files := (files w)(name \<mapsto> (case files w name of None \<Rightarrow> data | Some old \<Rightarrow> old @ data))\<rparr>"

text \<open>\<open>file.Write\<close> on the open file \<open>name\<close>.\<close>

definition fileWrite :: "string \<Rightarrow> string \<Rightarrow> world \<Rightarrow> (error + unit) \<times> world" where
  "fileWrite name data w =
     (case fault w of
        (Succeeds, w1) \<Rightarrow> (Inr (), appendTo name data w1)
      | (Fails n, w1) \<Rightarrow> (Inl (WriteError name), appendTo name (take n data) w1))"

text \<open>
  \<open>pem.Encode(file, block)\<close>: its writes are taken together, so a failure leaves a
  prefix of the block in the file.
\<close>

definition pemEncode :: "string \<Rightarrow> string \<Rightarrow> 8 word list \<Rightarrow> world \<Rightarrow> (error + unit) \<times> world" where
  "pemEncode name type bytes w = fileWrite name (pemBlock type bytes) w"

text \<open>
  The loop of \<open>createCertificateBundle\<close>, at index \<open>i\<close> of \<open>n = len(certs)\<close>
  certificates. The result of writing the separating newline is dropped, as in the source.
\<close>

fun bundleLoop :: "nat \<Rightarrow> nat \<Rightarrow> certificate list \<Rightarrow> string \<Rightarrow> world \<Rightarrow> (error + unit) \<times> world" where
  "bundleLoop i n [] filename w = (Inr (), w)"
| "bundleLoop i n (cert # rest) filename w =
     (case pemEncode filename ''CERTIFICATE'' (Raw cert) w of
        (Inl err, w1) \<Rightarrow> (Inl err, w1)
      | (Inr u, w1) \<Rightarrow>
          bundleLoop (i + 1) n rest filename
            (if int i < int n - 1 then snd (fileWrite filename nl w1) else w1))"

definition createCertificateBundle ::
  "certificate list \<Rightarrow> string \<Rightarrow> bool \<Rightarrow> world \<Rightarrow> (error + unit) \<times> world" where
  "createCertificateBundle certs filename verbose w =
     (case osCreate filename w of
        (Inl err, w1) \<Rightarrow> (Inl err, w1)
      | (Inr u, w1) \<Rightarrow> bundleLoop 0 (length certs) certs filename w1)"

text \<open>The loop of \<open>createIndividualCertificates\<close>, at index \<open>i\<close>.\<close>

fun individualLoop :: "nat \<Rightarrow> certificate list \<Rightarrow> world \<Rightarrow> (error + unit) \<times> world" where
  "individualLoop i [] w = (Inr (), w)"
| "individualLoop i (cert # rest) w =
     (let filename = generateCertFilename cert (i + 1)
      in if osStat filename w then individualLoop (i + 1) rest w
         else
           (case osCreate filename w of
              (Inl err, w1) \<Rightarrow> (Inl err, w1)
            | (Inr u, w1) \<Rightarrow>
                (case pemEncode filename ''CERTIFICATE'' (Raw cert) w1 of
                   (Inl err, w2) \<Rightarrow> (Inl err, w2)
                 | (Inr u, w2) \<Rightarrow> individualLoop (i + 1) rest w2)))"

definition createIndividualCertificates ::
  "certificate list \<Rightarrow> bool \<Rightarrow> world \<Rightarrow> (error + unit) \<times> world" where
  "createIndividualCertificates certs verbose w = individualLoop 0 certs w"

subsection \<open>Fetching the certificates\<close>

record Config =
  Target :: string
  InsecureSSL :: bool
  Timeout :: int
  Verbose :: bool

text \<open>\<open>fmt.Sprintf("%s:%d", server, port)\<close>.\<close>

definition itoa :: "int \<Rightarrow> string" where
  "itoa i = (if i < 0 then CHR ''-'' # digits (nat (- i)) else digits (nat i))"

definition address :: "string \<Rightarrow> int \<Rightarrow> string" where
  "address server port = server @ '':'' @ itoa port"

text \<open>
  \<open>net.DialTimeout\<close>: on success the connection gets the next number. The timeout and
  \<open>conn.SetReadDeadline\<close> only bound how long a reply is waited for.
\<close>

definition DialTimeout :: "string \<Rightarrow> world \<Rightarrow> (error + nat) \<times> world" where
  "DialTimeout addr w =
     (case respond (emit (Dial addr) w) of
        (Accept, w1) \<Rightarrow> (Inr (conns w1), w1\<lparr>conns := conns w1 + 1\<rparr>)
      | (r, w1) \<Rightarrow> (Inl DialError, w1))"

text \<open>\<open>conn.Read\<close> and \<open>conn.Write\<close>: \<open>True\<close> when no error is returned.\<close>

definition connRead :: "nat \<Rightarrow> world \<Rightarrow> bool \<times> world" where
  "connRead c w = (case respond (emit (Read c) w) of (r, w1) \<Rightarrow> (r = Accept, w1))"

definition connWrite :: "nat \<Rightarrow> string \<Rightarrow> world \<Rightarrow> bool \<times> world" where
  "connWrite c bytes w = (case respond (emit (Write c bytes) w) of (r, w1) \<Rightarrow> (r = Accept, w1))"

definition connClose :: "nat \<Rightarrow> world \<Rightarrow> world" where
  "connClose c w = emit (Close c) w"

text \<open>
  The TLS client handshake on connection \<open>c\<close>, giving
  \<open>ConnectionState().PeerCertificates\<close>.
\<close>

definition tlsHandshake :: "nat \<Rightarrow> world \<Rightarrow> (error + certificate list) \<times> world" where
  "tlsHandshake c w =
     (case respond (emit (Handshake c) w) of
        (Peer certs, w1) \<Rightarrow> (Inr certs, w1)
      | (r, w1) \<Rightarrow> (Inl HandshakeError, w1))"

text \<open>
  \<open>tls.DialWithDialer\<close>: a TCP connection and the handshake on it; the connection is
  closed when the handshake fails.
\<close>

definition DialWithDialer :: "string \<Rightarrow> world \<Rightarrow> (error + nat \<times> certificate list) \<times> world" where
  "DialWithDialer addr w =
     (case DialTimeout addr w of
        (Inl err, w1) \<Rightarrow> (Inl err, w1)
      | (Inr c, w1) \<Rightarrow>
          (case tlsHandshake c w1 of
             (Inl err, w2) \<Rightarrow> (Inl err, connClose c w2)
           | (Inr certs, w2) \<Rightarrow> (Inr (c, certs), w2)))"

definition getTLSCertificates ::
  "string \<Rightarrow> int \<Rightarrow> Config \<Rightarrow> world \<Rightarrow> (error + certificate list) \<times> world" where
  "getTLSCertificates server port config w =
     (case DialWithDialer (address server port) w of
        (Inl err, w1) \<Rightarrow> (Inl err, w1)
      | (Inr (conn, certs), w1) \<Rightarrow> (Inr certs, connClose conn w1))"

text \<open>
  The body of \<open>getTLSCertificatesWithSTARTTLS\<close> between the deferred \<open>conn.Close()\<close>
  being set up and being run. For smtp the results of writing \<open>EHLO\<close> and of reading
  its response are dropped, as in the source.
\<close>

definition starttlsOn ::
  "nat \<Rightarrow> string \<Rightarrow> world \<Rightarrow> (error + certificate list) \<times> world" where
  "starttlsOn conn protocol w =
     (case connRead conn w of
        (False, w1) \<Rightarrow> (Inl ReadGreetingError, w1)
      | (True, w1) \<Rightarrow>
          (case (if protocol = ''smtp'' then
                   (Inr (''STARTTLS'' @ [CHR 0x0D, CHR 0x0A]),
                    snd (connRead conn (snd (connWrite conn (''EHLO localhost'' @ [CHR 0x0D, CHR 0x0A]) w1))))
                 else if protocol = ''imap'' then (Inr (''a001 STARTTLS'' @ [CHR 0x0D, CHR 0x0A]), w1)
                 else if protocol = ''pop3'' then (Inr (''STLS'' @ [CHR 0x0D, CHR 0x0A]), w1)
                 else (Inl (UnsupportedProtocol protocol), w1)) of
             (Inl err, w2) \<Rightarrow> (Inl err, w2)
           | (Inr starttlsCmd, w2) \<Rightarrow>
               (case connWrite conn starttlsCmd w2 of
                  (False, w3) \<Rightarrow> (Inl SendSTARTTLSError, w3)
                | (True, w3) \<Rightarrow>
                    (case connRead conn w3 of
                       (False, w4) \<Rightarrow> (Inl ReadSTARTTLSError, w4)
                     | (True, w4) \<Rightarrow> tlsHandshake conn w4))))"

definition getTLSCertificatesWithSTARTTLS ::
  "string \<Rightarrow> int \<Rightarrow> string \<Rightarrow> Config \<Rightarrow> world \<Rightarrow> (error + certificate list) \<times> world" where
  "getTLSCertificatesWithSTARTTLS server port protocol config w =
     (case DialTimeout (address server port) w of
        (Inl err, w1) \<Rightarrow> (Inl err, w1)
      | (Inr conn, w1) \<Rightarrow>
          (case starttlsOn conn protocol w1 of
             (result, w2) \<Rightarrow> (result, connClose conn w2)))"

text \<open>
  The calls into \<open>net/smtp\<close>, each taken as one network operation: \<open>smtp.NewClient\<close>
  (read the greeting), \<open>client.StartTLS\<close> and \<open>client.Quit\<close> (whose result the
  program drops).
\<close>

definition smtpNewClient :: "nat \<Rightarrow> world \<Rightarrow> (error + unit) \<times> world" where
  "smtpNewClient c w =
     (case respond (emit (SMTPNewClient c) w) of
        (Accept, w1) \<Rightarrow> (Inr (), w1)
      | (r, w1) \<Rightarrow> (Inl SMTPError, w1))"

definition smtpStartTLS :: "nat \<Rightarrow> world \<Rightarrow> (error + unit) \<times> world" where
  "smtpStartTLS c w =
     (case respond (emit (SMTPStartTLS c) w) of
        (Accept, w1) \<Rightarrow> (Inr (), w1)
      | (r, w1) \<Rightarrow> (Inl SMTPError, w1))"

definition smtpQuit :: "nat \<Rightarrow> world \<Rightarrow> world" where
  "smtpQuit c w = snd (respond (emit (SMTPQuit c) w))"

text \<open>
  \<open>getSMTPCertificates\<close>. The deferred calls run when the function returns, last
  deferred first: \<open>client.Quit()\<close>, once the client exists, then \<open>conn.Close()\<close>.
\<close>

definition getSMTPCertificates ::
  "string \<Rightarrow> int \<Rightarrow> Config \<Rightarrow> world \<Rightarrow> (error + certificate list) \<times> world" where
  "getSMTPCertificates server port config w =
     (case DialTimeout (address server port) w of
        (Inl err, w1) \<Rightarrow> (Inl err, w1)
      | (Inr conn, w1) \<Rightarrow>
          (case smtpNewClient conn w1 of
             (Inl err, w2) \<Rightarrow> (Inl err, connClose conn w2)
           | (Inr client, w2) \<Rightarrow>
               (case smtpStartTLS conn w2 of
                  (Inl err, w3) \<Rightarrow> (Inl err, connClose conn (smtpQuit conn w3))
                | (Inr u, w3) \<Rightarrow>
                    (case getTLSCertificatesWithSTARTTLS server port ''smtp'' config
                            (connClose conn (smtpQuit conn w3)) of
                       (result, w4) \<Rightarrow> (result, connClose conn (smtpQuit conn w4))))))"

definition getIMAPCertificates ::
  "string \<Rightarrow> int \<Rightarrow> Config \<Rightarrow> world \<Rightarrow> (error + certificate list) \<times> world" where
  "getIMAPCertificates server port config w =
     getTLSCertificatesWithSTARTTLS server port ''imap'' config w"

definition getPOP3Certificates ::
  "string \<Rightarrow> int \<Rightarrow> Config \<Rightarrow> world \<Rightarrow> (error + certificate list) \<times> world" where
  "getPOP3Certificates server port config w =
     getTLSCertificatesWithSTARTTLS server port ''pop3'' config w"

subsection \<open>The whole run\<close>

text \<open>The \<open>switch protocol\<close> of \<open>extractCertificates\<close>.\<close>

definition getCertificates ::
  "string \<Rightarrow> string \<Rightarrow> int \<Rightarrow> Config \<Rightarrow> world \<Rightarrow> (error + certificate list) \<times> world" where
  "getCertificates protocol server port config w =
     (if protocol = ''https'' \<or> protocol = ''tls'' then getTLSCertificates server port config w
      else if protocol = ''smtp'' then getSMTPCertificates server port config w
      else if protocol = ''imap'' then getIMAPCertificates server port config w
      else if protocol = ''pop3'' then getPOP3Certificates server port config w
      else getTLSCertificates server port config w)"

text \<open>The errors \<open>extractCertificates\<close> returns, each wrapping the error behind it.\<close>

datatype failure =
    InvalidTarget error
  | FailedToGetCertificates error
  | NoCertificatesFound
  | FailedToCreateBundle error
  | FailedToCreateIndividual error

definition extractCertificates :: "Config \<Rightarrow> world \<Rightarrow> (failure + unit) \<times> world" where
  "extractCertificates config w =
     (case parseTarget (Target config) of
        Inl err \<Rightarrow> (Inl (InvalidTarget err), w)
      | Inr (server, port, protocol) \<Rightarrow>
          (case getCertificates protocol server port config w of
             (Inl err, w1) \<Rightarrow> (Inl (FailedToGetCertificates err), w1)
           | (Inr certs, w1) \<Rightarrow>
               if length certs = 0 then (Inl NoCertificatesFound, w1)
               else
                 (let bundleFile = server @ ''_bundle.pem''
                  in case createCertificateBundle certs bundleFile (Verbose config) w1 of
                       (Inl err, w2) \<Rightarrow> (Inl (FailedToCreateBundle err), w2)
                     | (Inr u, w2) \<Rightarrow>
                         (case createIndividualCertificates certs (Verbose config) w2 of
                            (Inl err, w3) \<Rightarrow> (Inl (FailedToCreateIndividual err), w3)
                          | (Inr u, w3) \<Rightarrow> (Inr (), w3)))))"

subsection \<open>Notions used in the statements\<close>

text \<open>No file creation and no write fails.\<close>

definition faultFree :: "world \<Rightarrow> bool" where
  "faultFree w = list_all (\<lambda>out. out = Succeeds) (faults w)"

text \<open>Blocks of text joined by one newline between neighbours, none after the last.\<close>

fun joinBlocks :: "string list \<Rightarrow> string" where
  "joinBlocks [] = []"
| "joinBlocks [b] = b"
| "joinBlocks (b # bs) = b @ nl @ joinBlocks bs"

text \<open>
  The file name and the PEM block of each certificate of a chain, in chain order, the
  first certificate having index \<open>i\<close>.
\<close>

fun namedBlocks :: "nat \<Rightarrow> certificate list \<Rightarrow> (string \<times> string) list" where
  "namedBlocks i [] = []"
| "namedBlocks i (cert # rest) =
     (generateCertFilename cert (i + 1), pemBlock ''CERTIFICATE'' (Raw cert)) # namedBlocks (i + 1) rest"

subsection \<open>Example data\<close>

definition leaf :: certificate where
  "leaf = \<lparr>Raw = [0x30, 0x82, 0x01], CommonName = ''mail.example.com'', DNSNames = [''mail.example.com'']\<rparr>"

definition issuer :: certificate where
  "issuer = \<lparr>Raw = [0x30, 0x82], CommonName = ''Example CA'', DNSNames = []\<rparr>"

text \<open>A world with an empty disk, a silent network and no faults.\<close>

definition blank :: world where
  "blank = \<lparr>replies = [], trace = [], conns = 0, files = Map.empty, faults = []\<rparr>"

definition config0 :: Config where
  "config0 = \<lparr>Target = [], InsecureSSL = False, Timeout = 10000000000, Verbose = False\<rparr>"

section \<open>Properties\<close>

subsection \<open>File names\<close>

lemma ReplaceAllString_no_star: "CHR ''*'' \<notin> set (ReplaceAllString s)"
  by (induction s rule: ReplaceAllString.induct) (auto simp: allowedChar_def)

text \<open>
  The replacement runs before the wildcard marker is looked for, and it has already
  turned every \<open>*\<close> into an underscore: \<open>TrimPrefix\<close> never finds its prefix.
\<close>

lemma sanitizeFilename_keeps_all: "sanitizeFilename s = ReplaceAllString s"
  using ReplaceAllString_no_star [of s]
  by (cases "ReplaceAllString s") (auto simp: sanitizeFilename_def TrimPrefix_def HasPrefix_def)

text \<open>
  C1. The claim: a common name \<open>*.Example.Com\<close> gives the file name
  \<open>Example.Com.crt\<close>, the leading wildcard marker stripped. The program gives
  \<open>_.Example.Com.crt\<close>: the asterisk is replaced by an underscore and nothing is
  stripped.
\<close>

theorem C1_wildcard_not_stripped:
  "generateCertFilename \<lparr>Raw = [], CommonName = ''*.Example.Com'', DNSNames = []\<rparr> 1
     = ''_.Example.Com.crt''"
  by code_simp

subsection \<open>Target resolution\<close>

lemma IndexByte_None_iff: "IndexByte s b = None \<longleftrightarrow> b \<notin> set s"
  by (induction s) auto

lemma IndexByte_append: "b \<notin> set h \<Longrightarrow> IndexByte (h @ b # t) b = Some (length h)"
  by (induction h) auto

lemma LastIndexByte_append:
  "b \<notin> set p \<Longrightarrow> LastIndexByte (h @ b # p) b = Some (length h)"
  using IndexByte_append [of b "rev p" "rev h"] by (simp add: LastIndexByte_def)

lemma Index_absent: "c \<notin> set s \<Longrightarrow> Index s (c # rest) = None"
  by (induction s) (auto simp: HasPrefix_def)

lemma Contains_byte: "Contains s [b] \<longleftrightarrow> b \<in> set s"
  by (induction s) (auto simp: Contains_def HasPrefix_def)

lemma SplitHostPort_port:
  assumes "SplitHostPort t = Inr (h, p)" "LastIndexByte t CHR '':'' = Some i"
  shows "p = drop (i + 1) t"
proof (cases "hd t = CHR ''[''")
  case True
  with assms show ?thesis
    by (simp add: SplitHostPort_def split: option.splits if_splits)
next
  case False
  with assms show ?thesis
    by (simp add: SplitHostPort_def Let_def split: if_splits)
qed


lemma SplitHostPort_plain:
  assumes "CHR '':'' \<notin> set h" "CHR ''['' \<notin> set h" "CHR '']'' \<notin> set h"
    and "CHR '':'' \<notin> set p" "CHR ''['' \<notin> set p" "CHR '']'' \<notin> set p"
  shows "SplitHostPort (h @ CHR '':'' # p) = Inr (h, p)"
proof -
  have i: "LastIndexByte (h @ CHR '':'' # p) CHR '':'' = Some (length h)"
    using assms(4) by (rule LastIndexByte_append)
  have hd: "hd (h @ CHR '':'' # p) \<noteq> CHR ''[''"
    using assms(2) by (cases h) auto
  have nb: "IndexByte (h @ CHR '':'' # p) CHR ''['' = None" "IndexByte (h @ CHR '':'' # p) CHR '']'' = None"
    using assms by (auto simp: IndexByte_None_iff)
  have nc: "IndexByte h CHR '':'' = None"
    using assms(1) by (simp add: IndexByte_None_iff)
  show ?thesis
    by (simp add: SplitHostPort_def i hd nb nc)
qed

lemma Atoi_chars:
  assumes "Atoi p = Some n"
  shows "\<forall>c \<in> set p. isDigit c \<or> c = CHR ''-'' \<or> c = CHR ''+''"
proof -
  obtain ds where ds: "ds = (if p \<noteq> [] \<and> (hd p = CHR ''-'' \<or> hd p = CHR ''+'') then tl p else p)" by simp
  with assms have "list_all isDigit ds"
    by (auto simp: Atoi_def Let_def split: if_splits)
  with ds show ?thesis
    by (cases p) (auto simp: list_all_iff split: if_splits)
qed

lemma Atoi_no_special:
  assumes "Atoi p = Some n" "c \<in> {CHR '':'', CHR ''['', CHR '']'', CHR ''/''}"
  shows "c \<notin> set p"
proof
  assume "c \<in> set p"
  with Atoi_chars [OF assms(1)] have "isDigit c \<or> c = CHR ''-'' \<or> c = CHR ''+''" by blast
  with assms(2) show False by (auto simp: isDigit_def)
qed

lemma no_scheme:
  assumes "CHR '':'' \<notin> set h" "CHR '':'' \<notin> set p" "CHR ''/'' \<notin> set p"
  shows "\<not> Contains (h @ CHR '':'' # p) ''://''"
  using assms
proof (induction h)
  case Nil
  then show ?case
    by (cases p) (auto simp: Contains_def HasPrefix_def Index_absent)
next
  case (Cons a h)
  then show ?case by (auto simp: Contains_def HasPrefix_def)
qed


lemma parseTarget_colon_ok:
  assumes "CHR '':'' \<notin> set h" "CHR ''['' \<notin> set h" "CHR '']'' \<notin> set h" "Atoi p = Some n"
  shows "parseTarget (h @ CHR '':'' # p) = Inr (h, n, ''https'')"
proof -
  have sp: "CHR '':'' \<notin> set p" "CHR ''['' \<notin> set p" "CHR '']'' \<notin> set p" "CHR ''/'' \<notin> set p"
    using Atoi_no_special [OF assms(4)] by simp_all
  have 1: "\<not> Contains (h @ CHR '':'' # p) ''://''"
    using assms(1) sp by (intro no_scheme)
  have 2: "Contains (h @ CHR '':'' # p) '':''"
    by (simp add: Contains_byte)
  have 3: "SplitHostPort (h @ CHR '':'' # p) = Inr (h, p)"
    using assms(1-3) sp by (intro SplitHostPort_plain)
  show ?thesis
    by (simp add: parseTarget_def 1 2 splitAndParse_def 3 assms(4))
qed

lemma parseTarget_colon_bad:
  assumes "\<not> Contains (h @ CHR '':'' # p) ''://''" "CHR '':'' \<notin> set p" "Atoi p = None"
  shows "\<exists>e. parseTarget (h @ CHR '':'' # p) = Inl e"
proof -
  let ?t = "h @ CHR '':'' # p"
  have 2: "Contains ?t '':''"
    by (simp add: Contains_byte)
  have i: "LastIndexByte ?t CHR '':'' = Some (length h)"
    using assms(2) by (rule LastIndexByte_append)
  show ?thesis
  proof (cases "SplitHostPort ?t")
    case (Inl e)
    then show ?thesis by (simp add: parseTarget_def assms(1) 2 splitAndParse_def)
  next
    case (Inr hp)
    obtain h' p' where hp: "hp = (h', p')" by (cases hp)
    with Inr i have "p' = p" by (auto dest: SplitHostPort_port)
    with Inr hp show ?thesis
      by (simp add: parseTarget_def assms(1,3) 2 splitAndParse_def)
  qed
qed

lemma Index_at_end: "CHR '':'' \<notin> set s \<Longrightarrow> Index (s @ ''://'') ''://'' = Some (length s)"
  by (induction s) (auto simp: HasPrefix_def)

lemma parseTarget_scheme_only:
  assumes "CHR '':'' \<notin> set s"
  shows "parseTarget (s @ ''://'') = Inr ('''', defaultPort (ToLower s), ToLower s)"
  using Index_at_end [OF assms]
  by (simp add: parseTarget_def Contains_def SplitN2_def Let_def)

text \<open>
  C2, the claim as stated fails: the port \<open>70000\<close> lies outside 1..65535 and the
  target resolves.
\<close>

theorem C2_port_out_of_range_accepted:
  "parseTarget ''example.com:70000'' = Inr (''example.com'', 70000, ''https'')"
  by code_simp

lemma SplitHostPort_bracketed:
  assumes "CHR ''['' \<notin> set h" "CHR '']'' \<notin> set h"
    and "CHR '':'' \<notin> set p" "CHR ''['' \<notin> set p" "CHR '']'' \<notin> set p"
  shows "SplitHostPort ((''['' @ h @ '']'') @ '':'' @ p) = Inr (h, p)"
proof -
  let ?t = "CHR ''['' # h @ CHR '']'' # CHR '':'' # p"
  have i: "LastIndexByte ?t CHR '':'' = Some (Suc (Suc (length h)))"
    using LastIndexByte_append [OF assms(3), of "CHR ''['' # h @ '']''"] by simp
  have e: "IndexByte (h @ CHR '']'' # CHR '':'' # p) CHR '']'' = Some (length h)"
    using assms(2) by (rule IndexByte_append)
  have nb: "IndexByte (h @ CHR '']'' # CHR '':'' # p) CHR ''['' = None"
    using assms(1,4) by (simp add: IndexByte_None_iff)
  have nc: "IndexByte p CHR '']'' = None"
    using assms(5) by (simp add: IndexByte_None_iff)
  have "SplitHostPort ?t = Inr (h, p)"
    by (simp add: SplitHostPort_def i e nb nc)
  then show ?thesis by simp
qed

lemma parseTarget_host_port_split:
  assumes "\<not> Contains (host @ '':'' @ portStr) ''://''" and "CHR '':'' \<notin> set portStr"
  shows "parseTarget (host @ '':'' @ portStr) =
     (case SplitHostPort (host @ '':'' @ portStr) of
        Inl e \<Rightarrow> Inl e
      | Inr (h, p) \<Rightarrow>
          (case Atoi portStr of None \<Rightarrow> Inl (InvalidPort portStr) | Some n \<Rightarrow> Inr (h, n, ''https'')))"
    and "SplitHostPort (host @ '':'' @ portStr) = Inr (h, p) \<Longrightarrow> p = portStr"
proof -
  let ?t = "host @ '':'' @ portStr"
  have c: "Contains ?t '':''" by (simp add: Contains_byte)
  have i: "LastIndexByte ?t CHR '':'' = Some (length host)"
    using LastIndexByte_append [OF assms(2), of host] by simp
  show p: "p = portStr" if "SplitHostPort ?t = Inr (h, p)" for h p
    using SplitHostPort_port [OF that i] by simp
  show "parseTarget ?t =
     (case SplitHostPort ?t of
        Inl e \<Rightarrow> Inl e
      | Inr (h, p) \<Rightarrow>
          (case Atoi portStr of None \<Rightarrow> Inl (InvalidPort portStr) | Some n \<Rightarrow> Inr (h, n, ''https'')))"
  proof (cases "SplitHostPort ?t")
    case (Inl e)
    then show ?thesis using assms(1) c by (simp add: parseTarget_def splitAndParse_def)
  next
    case (Inr hp)
    obtain h' p' where hp: "hp = (h', p')" by (cases hp)
    with Inr p have "p' = portStr" by simp
    with Inr hp show ?thesis using assms(1) c by (simp add: parseTarget_def splitAndParse_def)
  qed
qed

text \<open>
  C2, amended. For a target \<open>host:port\<close> without \<open>://\<close>, where \<open>port\<close> is the text
  after the last colon, the resolver returns an error exactly when \<open>net.SplitHostPort\<close>
  rejects the target or \<open>strconv.Atoi\<close> rejects the port text (it is not an optionally
  signed decimal number that fits an \<open>int\<close>). Otherwise it returns the host that
  \<open>net.SplitHostPort\<close> yields, with the number \<open>strconv.Atoi\<close> yields as port, whatever
  the number is, and scheme https: there is no check against the range 1..65535. When
  \<open>strconv.Atoi\<close> accepts the port text, \<open>net.SplitHostPort\<close> accepts a host without
  colon and bracket, and yields it unchanged; it accepts a host \<open>[h]\<close> with no bracket in
  \<open>h\<close>, and yields \<open>h\<close>.
\<close>

theorem C2_host_port:
  assumes "\<not> Contains (host @ '':'' @ portStr) ''://''" and "CHR '':'' \<notin> set portStr"
  shows "((\<exists>e. parseTarget (host @ '':'' @ portStr) = Inl e) \<longleftrightarrow>
            (\<exists>e. SplitHostPort (host @ '':'' @ portStr) = Inl e) \<or> Atoi portStr = None) \<and>
         (\<forall>h p n. SplitHostPort (host @ '':'' @ portStr) = Inr (h, p) \<and> Atoi portStr = Some n
            \<longrightarrow> p = portStr \<and> parseTarget (host @ '':'' @ portStr) = Inr (h, n, ''https'')) \<and>
         (\<forall>n. Atoi portStr = Some n \<and> CHR '':'' \<notin> set host \<and> CHR ''['' \<notin> set host \<and> CHR '']'' \<notin> set host
            \<longrightarrow> parseTarget (host @ '':'' @ portStr) = Inr (host, n, ''https'')) \<and>
         (\<forall>n h. Atoi portStr = Some n \<and> host = ''['' @ h @ '']'' \<and> CHR ''['' \<notin> set h \<and> CHR '']'' \<notin> set h
            \<longrightarrow> parseTarget (host @ '':'' @ portStr) = Inr (h, n, ''https''))"
proof (intro conjI allI impI)
  let ?t = "host @ '':'' @ portStr"
  note eq = parseTarget_host_port_split(1) [OF assms]
  show "(\<exists>e. parseTarget ?t = Inl e) \<longleftrightarrow> (\<exists>e. SplitHostPort ?t = Inl e) \<or> Atoi portStr = None"
    unfolding eq by (cases "SplitHostPort ?t"; cases "Atoi portStr") auto
  {
    fix h p n
    assume a: "SplitHostPort ?t = Inr (h, p) \<and> Atoi portStr = Some n"
    then show "p = portStr" using parseTarget_host_port_split(2) [OF assms] by blast
    from a show "parseTarget ?t = Inr (h, n, ''https'')" unfolding eq by simp
  }
  {
    fix n
    assume "Atoi portStr = Some n \<and> CHR '':'' \<notin> set host \<and> CHR ''['' \<notin> set host \<and> CHR '']'' \<notin> set host"
    then show "parseTarget ?t = Inr (host, n, ''https'')"
      using parseTarget_colon_ok [of host portStr n] by simp
  }
  {
    fix n h
    assume a: "Atoi portStr = Some n \<and> host = ''['' @ h @ '']'' \<and> CHR ''['' \<notin> set h \<and> CHR '']'' \<notin> set h"
    then have sp: "CHR ''['' \<notin> set portStr" "CHR '']'' \<notin> set portStr"
      using Atoi_no_special [of portStr n] by simp_all
    from a have "SplitHostPort ?t = Inr (h, portStr)"
      using SplitHostPort_bracketed [of h portStr] assms(2) sp by simp
    with a show "parseTarget ?t = Inr (h, n, ''https'')" unfolding eq by simp
  }
qed

theorem C2_host_port_witness:
  "(\<exists>e. parseTarget ''example.com:abc'' = Inl e) \<and>
   (\<exists>e. parseTarget ''a:b:80'' = Inl e) \<and>
   parseTarget ''example.com:0'' = Inr (''example.com'', 0, ''https'') \<and>
   parseTarget ''[::1]:443'' = Inr (''::1'', 443, ''https'')"
proof -
  have a: "\<not> Contains (''example.com'' @ '':'' @ ''abc'') ''://''"
          "\<not> Contains (''example.com'' @ '':'' @ ''0'') ''://''"
          "\<not> Contains (''a:b'' @ '':'' @ ''80'') ''://''"
          "\<not> Contains (''[::1]'' @ '':'' @ ''443'') ''://''"
    by code_simp+
  have b: "CHR '':'' \<notin> set ''abc''" "CHR '':'' \<notin> set ''0''" "CHR '':'' \<notin> set ''80''"
    "CHR '':'' \<notin> set ''443''"
    by simp_all
  have c: "Atoi ''abc'' = None" "Atoi ''0'' = Some 0" "Atoi ''443'' = Some 443"
    by code_simp+
  have "SplitHostPort (''a:b'' @ '':'' @ ''80'') = Inl (AddrError ''too many colons in address'' ''a:b:80'')"
    by code_simp
  then have s: "\<exists>e. SplitHostPort (''a:b'' @ '':'' @ ''80'') = Inl e" by blast
  have d: "CHR '':'' \<notin> set ''example.com'' \<and> CHR ''['' \<notin> set ''example.com'' \<and> CHR '']'' \<notin> set ''example.com''"
    by simp
  have k: "''[::1]'' = ''['' @ ''::1'' @ '']'' \<and> CHR ''['' \<notin> set ''::1'' \<and> CHR '']'' \<notin> set ''::1''"
    by simp
  from C2_host_port [OF a(1) b(1)] c(1)
  have 1: "\<exists>e. parseTarget (''example.com'' @ '':'' @ ''abc'') = Inl e" by blast
  from C2_host_port [OF a(3) b(3)] s
  have 2: "\<exists>e. parseTarget (''a:b'' @ '':'' @ ''80'') = Inl e" by blast
  from C2_host_port [OF a(2) b(2)] c(2) d
  have 3: "parseTarget (''example.com'' @ '':'' @ ''0'') = Inr (''example.com'', 0, ''https'')" by blast
  from C2_host_port [OF a(4) b(4)] c(3) k
  have 4: "parseTarget (''[::1]'' @ '':'' @ ''443'') = Inr (''::1'', 443, ''https'')" by blast
  from 1 2 3 4 show ?thesis by simp
qed

text \<open>
  C3, the claim as stated fails: \<open>:443\<close> resolves, to a target with the empty host.
\<close>

theorem C3_empty_host_accepted:
  "parseTarget '':443'' = Inr ('''', 443, ''https'')"
  by code_simp

text \<open>
  C3, amended. The resolver has no check for an empty host. The empty string resolves
  to the empty host with port 443 and scheme https; \<open>:port\<close> with a port text that
  \<open>strconv.Atoi\<close> accepts resolves to the empty host with that port; a scheme followed
  by \<open>://\<close> and nothing else resolves to the empty host.
\<close>

theorem C3_empty_host:
  "parseTarget '''' = Inr ('''', 443, ''https'') \<and>
   (\<forall>p n. Atoi p = Some n \<longrightarrow> parseTarget ('':'' @ p) = Inr ('''', n, ''https'')) \<and>
   (\<forall>s. CHR '':'' \<notin> set s \<longrightarrow> (\<exists>port protocol. parseTarget (s @ ''://'') = Inr ('''', port, protocol)))"
proof (intro conjI allI impI)
  show "parseTarget '''' = Inr ('''', 443, ''https'')"
    by (simp add: parseTarget_def Contains_def)
next
  fix p n assume "Atoi p = Some n"
  then show "parseTarget ('':'' @ p) = Inr ('''', n, ''https'')"
    using parseTarget_colon_ok [of "''''" p n] by simp
next
  fix s :: string assume "CHR '':'' \<notin> set s"
  then show "\<exists>port protocol. parseTarget (s @ ''://'') = Inr ('''', port, protocol)"
    by (simp add: parseTarget_scheme_only)
qed

theorem C3_empty_host_witness:
  "Atoi ''8443'' = Some 8443 \<and> parseTarget '':8443'' = Inr ('''', 8443, ''https'') \<and>
   CHR '':'' \<notin> set ''smtp'' \<and> (\<exists>port protocol. parseTarget ''smtp://'' = Inr ('''', port, protocol))"
proof -
  have a: "Atoi ''8443'' = Some 8443" by code_simp
  have b: "CHR '':'' \<notin> set ''smtp''" by simp
  from C3_empty_host a have 1: "parseTarget ('':'' @ ''8443'') = Inr ('''', 8443, ''https'')" by blast
  from C3_empty_host b have 2: "\<exists>port protocol. parseTarget (''smtp'' @ ''://'') = Inr ('''', port, protocol)" by blast
  from a b 1 2 show ?thesis by simp
qed

subsection \<open>Writing the files\<close>

lemma joinBlocks_butlast:
  "bs \<noteq> [] \<Longrightarrow> joinBlocks bs = concat (map (\<lambda>b. b @ nl) (butlast bs)) @ last bs"
  by (induction bs rule: joinBlocks.induct) auto

lemma fault_free:
  assumes "faultFree w"
  shows "fst (fault w) = Succeeds" "faultFree (snd (fault w))" "files (snd (fault w)) = files w"
  using assms by (auto simp: fault_def faultFree_def split: list.splits)

lemma osCreate_free:
  assumes "faultFree w"
  shows "fst (osCreate name w) = Inr ()" "faultFree (snd (osCreate name w))"
    "files (snd (osCreate name w)) = (files w)(name \<mapsto> [])"
  using fault_free [OF assms]
  by (auto simp: osCreate_def faultFree_def split: prod.splits outcome.splits)

lemma fileWrite_free:
  assumes "faultFree w"
  shows "fst (fileWrite name data w) = Inr ()" "faultFree (snd (fileWrite name data w))"
    "files (snd (fileWrite name data w))
       = (files w)(name \<mapsto> (case files w name of None \<Rightarrow> data | Some old \<Rightarrow> old @ data))"
  using fault_free [OF assms]
  by (auto simp: fileWrite_def appendTo_def faultFree_def split: prod.splits outcome.splits)

lemma bundleLoop_free:
  assumes "faultFree w" "files w filename = Some pre" "n = i + length certs"
  shows "fst (bundleLoop i n certs filename w) = Inr () \<and>
         faultFree (snd (bundleLoop i n certs filename w)) \<and>
         files (snd (bundleLoop i n certs filename w))
           = (files w)(filename \<mapsto> pre @ joinBlocks (map (\<lambda>c. pemBlock ''CERTIFICATE'' (Raw c)) certs))"
  using assms
proof (induction certs arbitrary: i w pre)
  case Nil
  then show ?case by (simp add: fun_upd_idem)
next
  case (Cons cert rest)
  let ?b = "pemBlock ''CERTIFICATE'' (Raw cert)"
  obtain r1 w1 where e: "pemEncode filename ''CERTIFICATE'' (Raw cert) w = (r1, w1)"
    by (cases "pemEncode filename ''CERTIFICATE'' (Raw cert) w")
  from fileWrite_free [OF Cons.prems(1), of filename ?b] e Cons.prems(2)
  have r1: "r1 = Inr ()" and f1: "faultFree w1" and c1: "files w1 = (files w)(filename \<mapsto> pre @ ?b)"
    by (simp_all add: pemEncode_def)
  show ?case
  proof (cases rest)
    case Nil
    with e r1 f1 c1 Cons.prems show ?thesis by simp
  next
    case (Cons c2 rest2)
    let ?w2 = "snd (fileWrite filename nl w1)"
    from fileWrite_free [OF f1, of filename nl] c1
    have f2: "faultFree ?w2" and c2: "files ?w2 = (files w)(filename \<mapsto> pre @ ?b @ nl)"
      by simp_all
    have n: "n = (i + 1) + length rest" using Cons.prems(3) by simp
    have lt: "int i < int n - 1" using Cons.prems(3) Cons by simp
    from c2 have s2: "files ?w2 filename = Some (pre @ ?b @ nl)" by simp
    have step: "bundleLoop i n (cert # rest) filename w = bundleLoop (i + 1) n rest filename ?w2"
      using e r1 lt by simp
    have upd: "(files ?w2)(filename \<mapsto> (pre @ ?b @ nl) @ joinBlocks (map (\<lambda>c. pemBlock ''CERTIFICATE'' (Raw c)) rest))
        = (files w)(filename \<mapsto> pre @ joinBlocks (map (\<lambda>c. pemBlock ''CERTIFICATE'' (Raw c)) (cert # rest)))"
      unfolding c2 using Cons by simp
    from Cons.IH [OF f2 s2 n] show ?thesis
      unfolding step upd .
  qed
qed

lemma createCertificateBundle_free:
  assumes "faultFree w"
  shows "fst (createCertificateBundle certs filename v w) = Inr () \<and>
         faultFree (snd (createCertificateBundle certs filename v w)) \<and>
         files (snd (createCertificateBundle certs filename v w))
           = (files w)(filename \<mapsto> joinBlocks (map (\<lambda>c. pemBlock ''CERTIFICATE'' (Raw c)) certs))"
proof -
  obtain r1 w1 where e: "osCreate filename w = (r1, w1)" by (cases "osCreate filename w")
  from osCreate_free [OF assms, of filename] e
  have r1: "r1 = Inr ()" and f1: "faultFree w1" and c1: "files w1 = (files w)(filename \<mapsto> [])"
    by simp_all
  from c1 have s1: "files w1 filename = Some []" by simp
  from bundleLoop_free [OF f1 s1, of "length certs" 0 certs] e r1 c1
  show ?thesis by (simp add: createCertificateBundle_def)
qed


lemma osCreate_files:
  "files (snd (osCreate name w)) = files w \<or> files (snd (osCreate name w)) = (files w)(name \<mapsto> [])"
  by (auto simp: osCreate_def fault_def split: list.splits outcome.splits)

lemma osCreate_fail_files:
  "osCreate name w = (Inl e, w1) \<Longrightarrow> files w1 = files w"
  by (auto simp: osCreate_def fault_def split: list.splits outcome.splits)

lemma osCreate_ok_files:
  "osCreate name w = (Inr u, w1) \<Longrightarrow> files w1 = (files w)(name \<mapsto> [])"
  by (auto simp: osCreate_def fault_def split: list.splits outcome.splits)

lemma fileWrite_other:
  "f \<noteq> name \<Longrightarrow> files (snd (fileWrite name data w)) f = files w f"
  by (auto simp: fileWrite_def appendTo_def fault_def split: list.splits outcome.splits)

lemma fileWrite_dom:
  "files (snd (fileWrite name data w)) name \<noteq> None"
  by (auto simp: fileWrite_def appendTo_def fault_def split: list.splits outcome.splits)

lemma individualLoop_keeps:
  "individualLoop i certs w = (r, w') \<Longrightarrow> files w f = Some d \<Longrightarrow> files w' f = Some d"
proof (induction certs arbitrary: i w)
  case Nil
  then show ?case by simp
next
  case (Cons cert rest)
  let ?name = "generateCertFilename cert (i + 1)"
  show ?case
  proof (cases "osStat ?name w")
    case True
    with Cons.prems have "individualLoop (i + 1) rest w = (r, w')" by simp
    from Cons.IH [OF this Cons.prems(2)] show ?thesis .
  next
    case False
    then have ne: "f \<noteq> ?name" using Cons.prems(2) by (auto simp: osStat_def)
    obtain r1 w1 where c: "osCreate ?name w = (r1, w1)" by (cases "osCreate ?name w")
    show ?thesis
    proof (cases r1)
      case (Inl e)
      with Cons.prems False c have "w' = w1" by simp
      with osCreate_fail_files c Inl Cons.prems(2) show ?thesis by metis
    next
      case (Inr u)
      with c have f1: "files w1 f = Some d"
        using osCreate_ok_files [of ?name w u w1] ne Cons.prems(2) by simp
      obtain r2 w2 where p: "pemEncode ?name ''CERTIFICATE'' (Raw cert) w1 = (r2, w2)"
        by (cases "pemEncode ?name ''CERTIFICATE'' (Raw cert) w1")
      then have f2: "files w2 f = Some d"
        using fileWrite_other [OF ne, of "pemBlock ''CERTIFICATE'' (Raw cert)" w1] f1
        by (simp add: pemEncode_def)
      show ?thesis
      proof (cases r2)
        case (Inl e)
        with Cons.prems False c Inr p have "w' = w2" by simp
        with f2 show ?thesis by simp
      next
        case (Inr u2)
        with Cons.prems False c \<open>r1 = Inr u\<close> p
        have "individualLoop (i + 1) rest w2 = (r, w')" by simp
        from Cons.IH [OF this f2] show ?thesis .
      qed
    qed
  qed
qed

lemma individualLoop_free:
  assumes "faultFree w"
  shows "fst (individualLoop i certs w) = Inr () \<and>
         faultFree (snd (individualLoop i certs w)) \<and>
         files (snd (individualLoop i certs w)) = map_of (namedBlocks i certs) ++ files w"
  using assms
proof (induction certs arbitrary: i w)
  case Nil
  then show ?case by simp
next
  case (Cons cert rest)
  let ?name = "generateCertFilename cert (i + 1)"
  let ?b = "pemBlock ''CERTIFICATE'' (Raw cert)"
  show ?case
  proof (cases "osStat ?name w")
    case True
    then obtain d where d: "files w ?name = Some d" by (auto simp: osStat_def)
    have step: "individualLoop i (cert # rest) w = individualLoop (i + 1) rest w"
      using True by simp
    have m: "map_of (namedBlocks i (cert # rest)) ++ files w = map_of (namedBlocks (i + 1) rest) ++ files w"
      using d by (auto simp: fun_eq_iff map_add_def split: option.splits)
    from Cons.IH [OF Cons.prems] show ?thesis unfolding step m .
  next
    case False
    then have none: "files w ?name = None" by (simp add: osStat_def)
    obtain r1 w1 where c: "osCreate ?name w = (r1, w1)" by (cases "osCreate ?name w")
    from osCreate_free [OF Cons.prems, of ?name] c
    have r1: "r1 = Inr ()" and f1: "faultFree w1" and c1: "files w1 = (files w)(?name \<mapsto> [])"
      by simp_all
    obtain r2 w2 where p: "pemEncode ?name ''CERTIFICATE'' (Raw cert) w1 = (r2, w2)"
      by (cases "pemEncode ?name ''CERTIFICATE'' (Raw cert) w1")
    from fileWrite_free [OF f1, of ?name ?b] p c1
    have r2: "r2 = Inr ()" and f2: "faultFree w2" and c2: "files w2 = (files w)(?name \<mapsto> ?b)"
      by (simp_all add: pemEncode_def)
    have step: "individualLoop i (cert # rest) w = individualLoop (i + 1) rest w2"
      using False c r1 p r2 by (simp add: Let_def)
    have m: "map_of (namedBlocks i (cert # rest)) ++ files w = map_of (namedBlocks (i + 1) rest) ++ files w2"
      unfolding c2 using none by (auto simp: fun_eq_iff map_add_def split: option.splits)
    from Cons.IH [OF f2] show ?thesis unfolding step m .
  qed
qed

lemma individualLoop_append:
  "individualLoop i (pre @ rest) w =
     (case individualLoop i pre w of
        (Inl e, w1) \<Rightarrow> (Inl e, w1)
      | (Inr u, w1) \<Rightarrow> individualLoop (i + length pre) rest w1)"
  by (induction pre arbitrary: i w) (auto simp: Let_def split: prod.splits sum.splits)

lemma name_not_bundle: "generateCertFilename cert i \<noteq> server @ ''_bundle.pem''"
proof
  assume "generateCertFilename cert i = server @ ''_bundle.pem''"
  then have "last (generateCertFilename cert i) = last (server @ ''_bundle.pem'')" by simp
  then show False by (simp add: generateCertFilename_def split: if_splits)
qed

lemma osCreate_conns: "conns (snd (osCreate name w)) = conns w"
  by (auto simp: osCreate_def fault_def split: list.splits outcome.splits)

lemma fileWrite_conns: "conns (snd (fileWrite name data w)) = conns w"
  by (auto simp: fileWrite_def appendTo_def fault_def split: list.splits outcome.splits)

lemma bundleLoop_conns: "conns (snd (bundleLoop i n certs filename w)) = conns w"
proof (induction certs arbitrary: i w)
  case Nil
  show ?case by simp
next
  case (Cons cert rest)
  obtain r1 w1 where 1: "pemEncode filename ''CERTIFICATE'' (Raw cert) w = (r1, w1)"
    by (cases "pemEncode filename ''CERTIFICATE'' (Raw cert) w")
  then have c1: "conns w1 = conns w"
    using fileWrite_conns [of filename "pemBlock ''CERTIFICATE'' (Raw cert)" w]
    by (simp add: pemEncode_def)
  show ?case
  proof (cases r1)
    case (Inl e)
    with 1 c1 show ?thesis by simp
  next
    case (Inr u)
    with 1 c1 show ?thesis by (simp add: Cons.IH fileWrite_conns)
  qed
qed

lemma createCertificateBundle_conns:
  "conns (snd (createCertificateBundle certs filename v w)) = conns w"
proof -
  obtain r1 w1 where 1: "osCreate filename w = (r1, w1)" by (cases "osCreate filename w")
  then have "conns w1 = conns w" using osCreate_conns [of filename w] by simp
  with 1 show ?thesis
    by (cases r1) (simp_all add: createCertificateBundle_def bundleLoop_conns)
qed

lemma individualLoop_conns: "conns (snd (individualLoop i certs w)) = conns w"
proof (induction certs arbitrary: i w)
  case Nil
  show ?case by simp
next
  case (Cons cert rest)
  let ?name = "generateCertFilename cert (i + 1)"
  obtain r1 w1 where 1: "osCreate ?name w = (r1, w1)" by (cases "osCreate ?name w")
  then have c1: "conns w1 = conns w" using osCreate_conns [of ?name w] by simp
  obtain r2 w2 where 2: "pemEncode ?name ''CERTIFICATE'' (Raw cert) w1 = (r2, w2)"
    by (cases "pemEncode ?name ''CERTIFICATE'' (Raw cert) w1")
  then have c2: "conns w2 = conns w"
    using fileWrite_conns [of ?name "pemBlock ''CERTIFICATE'' (Raw cert)" w1] c1
    by (simp add: pemEncode_def)
  show ?case
  proof (cases "osStat ?name w")
    case True
    then show ?thesis by (simp add: Cons.IH)
  next
    case False
    with 1 2 c1 c2 show ?thesis
      by (cases r1; cases r2) (simp_all add: Let_def Cons.IH)
  qed
qed

lemma bundleLoop_dom:
  "files w filename \<noteq> None \<Longrightarrow> files (snd (bundleLoop i n certs filename w)) filename \<noteq> None"
proof (induction certs arbitrary: i w)
  case Nil
  then show ?case by simp
next
  case (Cons cert rest)
  obtain r1 w1 where 1: "pemEncode filename ''CERTIFICATE'' (Raw cert) w = (r1, w1)"
    by (cases "pemEncode filename ''CERTIFICATE'' (Raw cert) w")
  then have d1: "files w1 filename \<noteq> None"
    using fileWrite_dom [of filename "pemBlock ''CERTIFICATE'' (Raw cert)" w]
    by (simp add: pemEncode_def)
  show ?case
  proof (cases r1)
    case (Inl e)
    with 1 d1 show ?thesis by simp
  next
    case (Inr u)
    let ?w2 = "if int i < int n - 1 then snd (fileWrite filename nl w1) else w1"
    have step: "bundleLoop i n (cert # rest) filename w = bundleLoop (i + 1) n rest filename ?w2"
      using 1 Inr by simp
    have "files ?w2 filename \<noteq> None"
      using d1 fileWrite_dom [of filename nl w1] by (cases "int i < int n - 1") simp_all
    from Cons.IH [OF this] show ?thesis unfolding step .
  qed
qed

lemma createCertificateBundle_dom:
  assumes "createCertificateBundle certs filename v w = (Inr u, w')"
  shows "files w' filename \<noteq> None"
proof -
  obtain r1 w1 where 1: "osCreate filename w = (r1, w1)" by (cases "osCreate filename w")
  with assms obtain u1 where r1: "r1 = Inr u1"
    by (cases r1) (simp_all add: createCertificateBundle_def)
  with 1 have "files w1 filename \<noteq> None" using osCreate_ok_files [of filename w u1 w1] by simp
  from bundleLoop_dom [OF this, of 0 "length certs" certs] assms 1 r1
  show ?thesis by (simp add: createCertificateBundle_def)
qed

lemma individualLoop_present:
  assumes "individualLoop i certs w = (Inr u, w')" "j < length certs"
  shows "files w' (generateCertFilename (certs ! j) (i + j + 1)) \<noteq> None"
  using assms
proof (induction certs arbitrary: i j w)
  case Nil
  then show ?case by simp
next
  case (Cons cert rest)
  let ?name = "generateCertFilename cert (i + 1)"
  obtain w2 where w2: "individualLoop (i + 1) rest w2 = (Inr u, w')" "files w2 ?name \<noteq> None"
  proof (cases "osStat ?name w")
    case True
    with Cons.prems(1) that show ?thesis by (simp add: osStat_def)
  next
    case False
    obtain r1 w1 where 1: "osCreate ?name w = (r1, w1)" by (cases "osCreate ?name w")
    obtain r2 x2 where 2: "pemEncode ?name ''CERTIFICATE'' (Raw cert) w1 = (r2, x2)"
      by (cases "pemEncode ?name ''CERTIFICATE'' (Raw cert) w1")
    from Cons.prems(1) False 1 2 have "individualLoop (i + 1) rest x2 = (Inr u, w')"
      by (cases r1; cases r2) (simp_all add: Let_def)
    moreover have "files x2 ?name \<noteq> None"
      using 2 fileWrite_dom [of ?name "pemBlock ''CERTIFICATE'' (Raw cert)" w1]
      by (simp add: pemEncode_def)
    ultimately show ?thesis using that by blast
  qed
  show ?case
  proof (cases j)
    case 0
    from w2(2) obtain d where "files w2 ?name = Some d" by auto
    from individualLoop_keeps [OF w2(1) this] 0 show ?thesis by simp
  next
    case (Suc k)
    with Cons.prems(2) have "k < length rest" by simp
    from Cons.IH [OF w2(1) this] Suc show ?thesis by simp
  qed
qed

subsection \<open>Fetching the certificates\<close>

text \<open>What each network operation does to the world: it extends the trace, may open a
  connection, and leaves the disk alone.\<close>

lemma DialTimeout_effect:
  assumes "DialTimeout a w = (r, w1)"
  shows "trace w1 = trace w @ [Dial a]" "files w1 = files w" "faults w1 = faults w"
    "case r of Inl e \<Rightarrow> conns w1 = conns w | Inr c \<Rightarrow> c = conns w \<and> conns w1 = conns w + 1"
  using assms
  by (auto simp: DialTimeout_def respond_def emit_def split: list.splits reply.splits)

lemma connRead_effect:
  assumes "connRead c w = (b, w1)"
  shows "trace w1 = trace w @ [Read c]" "files w1 = files w" "faults w1 = faults w" "conns w1 = conns w"
  using assms
  by (auto simp: connRead_def respond_def emit_def split: list.splits)

lemma connWrite_effect:
  assumes "connWrite c bytes w = (b, w1)"
  shows "trace w1 = trace w @ [Write c bytes]" "files w1 = files w" "faults w1 = faults w" "conns w1 = conns w"
  using assms
  by (auto simp: connWrite_def respond_def emit_def split: list.splits)

lemma tlsHandshake_effect:
  assumes "tlsHandshake c w = (r, w1)"
  shows "trace w1 = trace w @ [Handshake c]" "files w1 = files w" "faults w1 = faults w" "conns w1 = conns w"
  using assms
  by (auto simp: tlsHandshake_def respond_def emit_def split: list.splits reply.splits)

lemma connClose_effect:
  "trace (connClose c w) = trace w @ [Close c]" "files (connClose c w) = files w"
  "faults (connClose c w) = faults w" "conns (connClose c w) = conns w"
  by (simp_all add: connClose_def emit_def)

lemma smtpNewClient_effect:
  assumes "smtpNewClient c w = (r, w1)"
  shows "trace w1 = trace w @ [SMTPNewClient c]" "files w1 = files w" "faults w1 = faults w" "conns w1 = conns w"
  using assms
  by (auto simp: smtpNewClient_def respond_def emit_def split: list.splits reply.splits)

lemma smtpStartTLS_effect:
  assumes "smtpStartTLS c w = (r, w1)"
  shows "trace w1 = trace w @ [SMTPStartTLS c]" "files w1 = files w" "faults w1 = faults w" "conns w1 = conns w"
  using assms
  by (auto simp: smtpStartTLS_def respond_def emit_def split: list.splits reply.splits)

lemma smtpQuit_effect:
  "trace (smtpQuit c w) = trace w @ [SMTPQuit c]" "files (smtpQuit c w) = files w"
  "faults (smtpQuit c w) = faults w" "conns (smtpQuit c w) = conns w"
  by (auto simp: smtpQuit_def respond_def emit_def split: list.splits)


lemmas connRead_snd = connRead_effect [OF surjective_pairing]
lemmas connWrite_snd = connWrite_effect [OF surjective_pairing]

lemma starttlsOn_frame:
  assumes "starttlsOn c p w = (r, w')"
  shows "files w' = files w \<and> faults w' = faults w \<and> conns w' = conns w"
proof -
  obtain b1 w1 where 1: "connRead c w = (b1, w1)" by (cases "connRead c w")
  note e1 = connRead_effect [OF 1]
  show ?thesis
  proof (cases b1)
    case False
    with assms 1 e1 show ?thesis by (simp add: starttlsOn_def)
  next
    case True
    define w2 where "w2 = (if p = ''smtp'' then snd (connRead c (snd (connWrite c (''EHLO localhost'' @ [CHR 0x0D, CHR 0x0A]) w1))) else w1)"
    have e2: "files w2 = files w" "faults w2 = faults w" "conns w2 = conns w"
      using e1 by (simp_all add: w2_def connRead_snd connWrite_snd)
    show ?thesis
    proof (cases "p = ''smtp'' \<or> p = ''imap'' \<or> p = ''pop3''")
      case False
      with assms 1 True e1 show ?thesis by (simp add: starttlsOn_def)
    next
      case known: True
      define cmd where "cmd = (if p = ''smtp'' then ''STARTTLS'' else if p = ''imap'' then ''a001 STARTTLS'' else ''STLS'') @ [CHR 0x0D, CHR 0x0A]"
      obtain b3 w3 where 3: "connWrite c cmd w2 = (b3, w3)" by (cases "connWrite c cmd w2")
      note e3 = connWrite_effect [OF 3]
      obtain b4 w4 where 4: "connRead c w3 = (b4, w4)" by (cases "connRead c w3")
      note e4 = connRead_effect [OF 4]
      obtain r5 w5 where 5: "tlsHandshake c w4 = (r5, w5)" by (cases "tlsHandshake c w4")
      note e5 = tlsHandshake_effect [OF 5]
      from assms 1 True known 3 4 5
      have "w' = w3 \<or> w' = w4 \<or> w' = w5"
        by (auto simp: starttlsOn_def w2_def cmd_def split: if_splits bool.splits)
      with e2 e3 e4 e5 show ?thesis by auto
    qed
  qed
qed


lemma getTLSCertificatesWithSTARTTLS_frame:
  assumes "getTLSCertificatesWithSTARTTLS server port p config w = (r, w')"
  shows "files w' = files w" "faults w' = faults w" "conns w' \<le> conns w + 1"
    "r = Inr certs \<Longrightarrow> conns w' = conns w + 1"
proof -
  obtain r1 w1 where 1: "DialTimeout (address server port) w = (r1, w1)"
    by (cases "DialTimeout (address server port) w")
  note e1 = DialTimeout_effect [OF 1]
  have "files w' = files w \<and> faults w' = faults w \<and> conns w' \<le> conns w + 1
        \<and> (r = Inr certs \<longrightarrow> conns w' = conns w + 1)"
  proof (cases r1)
    case (Inl e)
    with assms 1 e1 show ?thesis by (auto simp: getTLSCertificatesWithSTARTTLS_def)
  next
    case (Inr c)
    obtain r2 w2 where 2: "starttlsOn c p w1 = (r2, w2)" by (cases "starttlsOn c p w1")
    from assms 1 Inr 2 have "w' = connClose c w2"
      by (simp add: getTLSCertificatesWithSTARTTLS_def)
    with starttlsOn_frame [OF 2] e1 Inr show ?thesis by (simp add: connClose_effect)
  qed
  then show "files w' = files w" "faults w' = faults w" "conns w' \<le> conns w + 1"
    "r = Inr certs \<Longrightarrow> conns w' = conns w + 1" by simp_all
qed

lemma getTLSCertificates_frame:
  assumes "getTLSCertificates server port config w = (r, w')"
  shows "files w' = files w" "faults w' = faults w" "conns w' \<le> conns w + 1"
    "r = Inr certs \<Longrightarrow> conns w' = conns w + 1"
proof -
  obtain r1 w1 where 1: "DialTimeout (address server port) w = (r1, w1)"
    by (cases "DialTimeout (address server port) w")
  note e1 = DialTimeout_effect [OF 1]
  have "files w' = files w \<and> faults w' = faults w \<and> conns w' \<le> conns w + 1
        \<and> (r = Inr certs \<longrightarrow> conns w' = conns w + 1)"
  proof (cases r1)
    case (Inl e)
    with assms 1 e1 show ?thesis
      by (auto simp: getTLSCertificates_def DialWithDialer_def)
  next
    case (Inr c)
    obtain r2 w2 where 2: "tlsHandshake c w1 = (r2, w2)" by (cases "tlsHandshake c w1")
    from assms 1 Inr 2 have "w' = connClose c w2"
      by (cases r2) (auto simp: getTLSCertificates_def DialWithDialer_def)
    with tlsHandshake_effect [OF 2] e1 Inr show ?thesis by (simp add: connClose_effect)
  qed
  then show "files w' = files w" "faults w' = faults w" "conns w' \<le> conns w + 1"
    "r = Inr certs \<Longrightarrow> conns w' = conns w + 1" by simp_all
qed

lemma getSMTPCertificates_frame:
  assumes "getSMTPCertificates server port config w = (r, w')"
  shows "files w' = files w" "faults w' = faults w" "conns w' \<le> conns w + 2"
    "r = Inr certs \<Longrightarrow> conns w' = conns w + 2"
proof -
  obtain r1 w1 where 1: "DialTimeout (address server port) w = (r1, w1)"
    by (cases "DialTimeout (address server port) w")
  note e1 = DialTimeout_effect [OF 1]
  have "files w' = files w \<and> faults w' = faults w \<and> conns w' \<le> conns w + 2
        \<and> (r = Inr certs \<longrightarrow> conns w' = conns w + 2)"
  proof (cases r1)
    case (Inl e)
    with assms 1 e1 show ?thesis by (auto simp: getSMTPCertificates_def)
  next
    case (Inr c)
    obtain r2 w2 where 2: "smtpNewClient c w1 = (r2, w2)" by (cases "smtpNewClient c w1")
    note e2 = smtpNewClient_effect [OF 2]
    show ?thesis
    proof (cases r2)
      case (Inl e)
      with assms 1 Inr 2 have "r = Inl e" "w' = connClose c w2"
        by (simp_all add: getSMTPCertificates_def)
      with e1 e2 Inr show ?thesis by (simp add: connClose_effect)
    next
      case client: (Inr u)
      obtain r3 w3 where 3: "smtpStartTLS c w2 = (r3, w3)" by (cases "smtpStartTLS c w2")
      note e3 = smtpStartTLS_effect [OF 3]
      show ?thesis
      proof (cases r3)
        case (Inl e)
        with assms 1 Inr 2 client 3 have "r = Inl e" "w' = connClose c (smtpQuit c w3)"
          by (simp_all add: getSMTPCertificates_def)
        with e1 e2 e3 Inr show ?thesis by (simp add: connClose_effect smtpQuit_effect)
      next
        case started: (Inr u3)
        let ?w4 = "connClose c (smtpQuit c w3)"
        obtain r5 w5 where 5: "getTLSCertificatesWithSTARTTLS server port ''smtp'' config ?w4 = (r5, w5)"
          by (cases "getTLSCertificatesWithSTARTTLS server port ''smtp'' config ?w4")
        note e5 = getTLSCertificatesWithSTARTTLS_frame [OF 5]
        from assms 1 Inr 2 client 3 started 5
        have "r = r5" "w' = connClose c (smtpQuit c w5)"
          by (simp_all add: getSMTPCertificates_def)
        with e1 e2 e3 e5 Inr show ?thesis by (simp add: connClose_effect smtpQuit_effect)
      qed
    qed
  qed
  then show "files w' = files w" "faults w' = faults w" "conns w' \<le> conns w + 2"
    "r = Inr certs \<Longrightarrow> conns w' = conns w + 2" by simp_all
qed

lemma getCertificates_frame:
  assumes "getCertificates protocol server port config w = (r, w')"
  shows "files w' = files w" "faults w' = faults w"
    "conns w' \<le> conns w + (if protocol = ''smtp'' then 2 else 1)"
    "r = Inr certs \<Longrightarrow> conns w' = conns w + (if protocol = ''smtp'' then 2 else 1)"
proof -
  consider (tls) "getTLSCertificates server port config w = (r, w')" "protocol \<noteq> ''smtp''"
    | (smtp) "getSMTPCertificates server port config w = (r, w')" "protocol = ''smtp''"
    | (starttls) p where "getTLSCertificatesWithSTARTTLS server port p config w = (r, w')" "protocol \<noteq> ''smtp''"
    using assms
    by (auto simp: getCertificates_def getIMAPCertificates_def getPOP3Certificates_def split: if_splits)
  then have "files w' = files w \<and> faults w' = faults w
      \<and> conns w' \<le> conns w + (if protocol = ''smtp'' then 2 else 1)
      \<and> (r = Inr certs \<longrightarrow> conns w' = conns w + (if protocol = ''smtp'' then 2 else 1))"
  proof cases
    case tls
    from getTLSCertificates_frame [OF tls(1)] tls(2) show ?thesis by simp
  next
    case smtp
    from getSMTPCertificates_frame [OF smtp(1)] smtp(2) show ?thesis by simp
  next
    case starttls
    from getTLSCertificatesWithSTARTTLS_frame [OF starttls(1)] starttls(2) show ?thesis by simp
  qed
  then show "files w' = files w" "faults w' = faults w"
    "conns w' \<le> conns w + (if protocol = ''smtp'' then 2 else 1)"
    "r = Inr certs \<Longrightarrow> conns w' = conns w + (if protocol = ''smtp'' then 2 else 1)"
    by simp_all
qed

subsection \<open>The STARTTLS script for pop3\<close>

lemma starttlsOn_pop3:
  assumes "starttlsOn c ''pop3'' w = (r, w')"
  shows "\<exists>es. trace w' = trace w @ es \<and>
           (es = [Read c] \<or> es = [Read c, Write c (''STLS'' @ [CHR 0x0D, CHR 0x0A])]
            \<or> es = [Read c, Write c (''STLS'' @ [CHR 0x0D, CHR 0x0A]), Read c]
            \<or> es = [Read c, Write c (''STLS'' @ [CHR 0x0D, CHR 0x0A]), Read c, Handshake c]) \<and>
           ((\<exists>certs. r = Inr certs) \<longrightarrow>
              es = [Read c, Write c (''STLS'' @ [CHR 0x0D, CHR 0x0A]), Read c, Handshake c])"
proof -
  let ?stls = "''STLS'' @ [CHR 0x0D, CHR 0x0A]"
  obtain b1 w1 where 1: "connRead c w = (b1, w1)" by (cases "connRead c w")
  note e1 = connRead_effect(1) [OF 1]
  obtain b2 w2 where 2: "connWrite c ?stls w1 = (b2, w2)" by (cases "connWrite c ?stls w1")
  note e2 = connWrite_effect(1) [OF 2]
  obtain b3 w3 where 3: "connRead c w2 = (b3, w3)" by (cases "connRead c w2")
  note e3 = connRead_effect(1) [OF 3]
  obtain r4 w4 where 4: "tlsHandshake c w3 = (r4, w4)" by (cases "tlsHandshake c w3")
  note e4 = tlsHandshake_effect(1) [OF 4]
  consider (a) "\<not> b1" "r = Inl ReadGreetingError" "w' = w1"
    | (b) "b1" "\<not> b2" "r = Inl SendSTARTTLSError" "w' = w2"
    | (c) "b1" "b2" "\<not> b3" "r = Inl ReadSTARTTLSError" "w' = w3"
    | (d) "b1" "b2" "b3" "r = r4" "w' = w4"
    using assms 1 2 3 4 by (cases b1; cases b2; cases b3) (auto simp: starttlsOn_def)
  then show ?thesis
  proof cases
    case a
    with e1 show ?thesis by simp
  next
    case b
    with e1 e2 show ?thesis by simp
  next
    case c
    with e1 e2 e3 show ?thesis by simp
  next
    case d
    with e1 e2 e3 e4 show ?thesis by simp
  qed
qed

text \<open>
  C8. For pop3 the events of \<open>getTLSCertificatesWithSTARTTLS\<close> after the connection
  attempt are a prefix of one fixed script, followed by the close of the connection: one
  read (the greeting), one write of the bytes \<open>STLS\r\n\<close>, one read (the response),
  the TLS handshake, all on the connection just opened. A handshake happens, and
  certificates are returned, only at the end of the whole script: nothing else is written
  before it.
\<close>

theorem C8_pop3_script:
  "let c = conns w;
       stls = ''STLS'' @ [CHR 0x0D, CHR 0x0A];
       script = [Read c, Write c stls, Read c, Handshake c, Close c];
       result = getTLSCertificatesWithSTARTTLS server port ''pop3'' config w
   in \<exists>es. trace (snd result) = trace w @ Dial (address server port) # es \<and>
        (es = [] \<or> es = [Read c, Close c] \<or> es = [Read c, Write c stls, Close c]
         \<or> es = [Read c, Write c stls, Read c, Close c] \<or> es = script) \<and>
        ((\<exists>k. Handshake k \<in> set es) \<longrightarrow> es = script) \<and>
        ((\<exists>certs. fst result = Inr certs) \<longrightarrow> es = script)"
proof -
  let ?res = "getTLSCertificatesWithSTARTTLS server port ''pop3'' config w"
  obtain r1 w1 where 1: "DialTimeout (address server port) w = (r1, w1)"
    by (cases "DialTimeout (address server port) w")
  note e1 = DialTimeout_effect [OF 1]
  show ?thesis
  proof (cases r1)
    case (Inl e)
    with 1 have "?res = (Inl e, w1)" by (simp add: getTLSCertificatesWithSTARTTLS_def)
    with e1(1) show ?thesis by (simp add: Let_def)
  next
    case (Inr c)
    with e1(4) have c: "c = conns w" by simp
    obtain r2 w2 where 2: "starttlsOn c ''pop3'' w1 = (r2, w2)" by (cases "starttlsOn c ''pop3'' w1")
    from starttlsOn_pop3 [OF 2] obtain es where
      es: "trace w2 = trace w1 @ es"
        "es = [Read c] \<or> es = [Read c, Write c (''STLS'' @ [CHR 0x0D, CHR 0x0A])]
            \<or> es = [Read c, Write c (''STLS'' @ [CHR 0x0D, CHR 0x0A]), Read c]
            \<or> es = [Read c, Write c (''STLS'' @ [CHR 0x0D, CHR 0x0A]), Read c, Handshake c]"
        "(\<exists>certs. r2 = Inr certs) \<longrightarrow>
              es = [Read c, Write c (''STLS'' @ [CHR 0x0D, CHR 0x0A]), Read c, Handshake c]"
      by blast
    from 1 Inr 2 have res: "?res = (r2, connClose c w2)"
      by (simp add: getTLSCertificatesWithSTARTTLS_def)
    have tr: "trace (snd ?res) = trace w @ Dial (address server port) # (es @ [Close c])"
      using res es(1) e1(1) by (simp add: connClose_effect)
    show ?thesis
      unfolding Let_def
      apply (rule exI [of _ "es @ [Close c]"])
      using tr es(2,3) res c by auto
  qed
qed

theorem C8_pop3_script_witness:
  "trace (snd (getTLSCertificatesWithSTARTTLS ''pop.example.com'' 110 ''pop3'' config0
       (blank\<lparr>replies := [Accept, Accept, Accept, Accept, Peer [leaf]]\<rparr>)))
     = [Dial ''pop.example.com:110'', Read 0, Write 0 (''STLS'' @ [CHR 0x0D, CHR 0x0A]), Read 0,
        Handshake 0, Close 0]"
proof -
  let ?w = "blank\<lparr>replies := [Accept, Accept, Accept, Accept, Peer [leaf]]\<rparr>"
  let ?res = "getTLSCertificatesWithSTARTTLS ''pop.example.com'' 110 ''pop3'' config0 ?w"
  have ok: "fst ?res = Inr [leaf]" by code_simp
  have a: "address ''pop.example.com'' 110 = ''pop.example.com:110''" by code_simp
  have w: "trace ?w = []" "conns ?w = 0" by (simp_all add: blank_def)
  from C8_pop3_script [of ?w "''pop.example.com''" 110 config0] ok
  show ?thesis by (auto simp: Let_def a w)
qed

subsection \<open>The whole run\<close>

lemma extract_run:
  assumes "parseTarget (Target config) = Inr (server, port, protocol)"
    and "getCertificates protocol server port config w = (Inr certs, w1)"
    and "certs \<noteq> []"
  shows "extractCertificates config w =
     (case createCertificateBundle certs (server @ ''_bundle.pem'') (Verbose config) w1 of
        (Inl err, w2) \<Rightarrow> (Inl (FailedToCreateBundle err), w2)
      | (Inr u, w2) \<Rightarrow>
          (case createIndividualCertificates certs (Verbose config) w2 of
             (Inl err, w3) \<Rightarrow> (Inl (FailedToCreateIndividual err), w3)
           | (Inr u, w3) \<Rightarrow> (Inr (), w3)))"
  using assms by (simp add: extractCertificates_def Let_def)

lemma run_free:
  assumes "parseTarget (Target config) = Inr (server, port, protocol)"
    and "getCertificates protocol server port config w = (Inr certs, w1)"
    and "certs \<noteq> []" and "faultFree w"
  shows "fst (extractCertificates config w) = Inr ()"
    and "files (snd (extractCertificates config w))
           = map_of (namedBlocks 0 certs)
               ++ (files w)(server @ ''_bundle.pem'' \<mapsto> joinBlocks (map (\<lambda>c. pemBlock ''CERTIFICATE'' (Raw c)) certs))"
proof -
  let ?bf = "server @ ''_bundle.pem''"
  from getCertificates_frame(1,2) [OF assms(2)] assms(4)
  have f1: "faultFree w1" and d1: "files w1 = files w" by (simp_all add: faultFree_def)
  obtain r2 w2 where 2: "createCertificateBundle certs ?bf (Verbose config) w1 = (r2, w2)"
    by (cases "createCertificateBundle certs ?bf (Verbose config) w1")
  from createCertificateBundle_free [OF f1, of certs ?bf "Verbose config"] 2 d1
  have r2: "r2 = Inr ()" and f2: "faultFree w2"
    and d2: "files w2 = (files w)(?bf \<mapsto> joinBlocks (map (\<lambda>c. pemBlock ''CERTIFICATE'' (Raw c)) certs))"
    by simp_all
  obtain r3 w3 where 3: "createIndividualCertificates certs (Verbose config) w2 = (r3, w3)"
    by (cases "createIndividualCertificates certs (Verbose config) w2")
  from individualLoop_free [OF f2, of 0 certs] 3 d2
  have r3: "r3 = Inr ()"
    and d3: "files w3 = map_of (namedBlocks 0 certs)
        ++ (files w)(?bf \<mapsto> joinBlocks (map (\<lambda>c. pemBlock ''CERTIFICATE'' (Raw c)) certs))"
    by (simp_all add: createIndividualCertificates_def)
  have "extractCertificates config w = (Inr (), w3)"
    using extract_run [OF assms(1-3)] 2 r2 3 r3 by simp
  with d3 show "fst (extractCertificates config w) = Inr ()"
    and "files (snd (extractCertificates config w))
           = map_of (namedBlocks 0 certs)
               ++ (files w)(server @ ''_bundle.pem'' \<mapsto> joinBlocks (map (\<lambda>c. pemBlock ''CERTIFICATE'' (Raw c)) certs))"
    by simp_all
qed

lemma pemBlock_leaf:
  "pemBlock ''CERTIFICATE'' (Raw leaf)
     = ''-----BEGIN CERTIFICATE-----'' @ nl @ ''MIIB'' @ nl @ ''-----END CERTIFICATE-----'' @ nl"
  by code_simp

text \<open>
  C7. When the handshake yields a chain of zero certificates, the run ends with
  \<open>NoCertificatesFound\<close> in the world the network left, whose files are those from
  before the run: no bundle and no individual file is created.
\<close>

theorem C7_no_certificates:
  assumes "parseTarget (Target config) = Inr (server, port, protocol)"
    and "getCertificates protocol server port config w = (Inr [], w1)"
  shows "extractCertificates config w = (Inl NoCertificatesFound, w1) \<and> files w1 = files w"
  using assms getCertificates_frame(1) [OF assms(2)]
  by (simp add: extractCertificates_def)

theorem C7_no_certificates_witness:
  "fst (extractCertificates (config0\<lparr>Target := ''pop3://pop.example.com''\<rparr>)
          (blank\<lparr>replies := [Accept, Accept, Accept, Accept, Peer []]\<rparr>)) = Inl NoCertificatesFound \<and>
   files (snd (extractCertificates (config0\<lparr>Target := ''pop3://pop.example.com''\<rparr>)
          (blank\<lparr>replies := [Accept, Accept, Accept, Accept, Peer []]\<rparr>))) = Map.empty"
proof -
  let ?cfg = "config0\<lparr>Target := ''pop3://pop.example.com''\<rparr>"
  let ?w = "blank\<lparr>replies := [Accept, Accept, Accept, Accept, Peer []]\<rparr>"
  let ?get = "getCertificates ''pop3'' ''pop.example.com'' 110 ?cfg ?w"
  have p: "parseTarget (Target ?cfg) = Inr (''pop.example.com'', 110, ''pop3'')" by code_simp
  have "fst ?get = Inr []" by code_simp
  then have g: "?get = (Inr [], snd ?get)" by (metis prod.collapse)
  from C7_no_certificates [OF p g] show ?thesis by (simp add: blank_def)
qed

text \<open>
  C6. For a non-empty chain, when no file operation fails, the run succeeds and the file
  \<open><host>_bundle.pem\<close> holds exactly the PEM \<open>CERTIFICATE\<close> blocks of the chain
  in chain order: every block but the last is followed by one newline (a blank line,
  since a block ends with a newline itself), and nothing follows the last block.
\<close>

theorem C6_bundle:
  assumes "parseTarget (Target config) = Inr (server, port, protocol)"
    and "getCertificates protocol server port config w = (Inr certs, w1)"
    and "certs \<noteq> []" and "faultFree w"
  shows "fst (extractCertificates config w) = Inr () \<and>
         files (snd (extractCertificates config w)) (server @ ''_bundle.pem'')
           = Some (concat (map (\<lambda>c. pemBlock ''CERTIFICATE'' (Raw c) @ nl) (butlast certs))
                   @ pemBlock ''CERTIFICATE'' (Raw (last certs)))"
proof -
  have "joinBlocks (map (\<lambda>c. pemBlock ''CERTIFICATE'' (Raw c)) certs)
      = concat (map (\<lambda>c. pemBlock ''CERTIFICATE'' (Raw c) @ nl) (butlast certs))
          @ pemBlock ''CERTIFICATE'' (Raw (last certs))"
    using assms(3) by (simp add: joinBlocks_butlast map_butlast [symmetric] last_map comp_def)
  with run_free [OF assms] show ?thesis by (simp add: map_add_def)
qed

theorem C6_bundle_witness:
  "fst (extractCertificates (config0\<lparr>Target := ''mail.example.com:443''\<rparr>)
          (blank\<lparr>replies := [Accept, Peer [leaf, issuer]]\<rparr>)) = Inr () \<and>
   files (snd (extractCertificates (config0\<lparr>Target := ''mail.example.com:443''\<rparr>)
          (blank\<lparr>replies := [Accept, Peer [leaf, issuer]]\<rparr>))) ''mail.example.com_bundle.pem''
     = Some (pemBlock ''CERTIFICATE'' [0x30, 0x82, 0x01] @ nl @ pemBlock ''CERTIFICATE'' [0x30, 0x82])"
proof -
  let ?cfg = "config0\<lparr>Target := ''mail.example.com:443''\<rparr>"
  let ?w = "blank\<lparr>replies := [Accept, Peer [leaf, issuer]]\<rparr>"
  let ?get = "getCertificates ''https'' ''mail.example.com'' 443 ?cfg ?w"
  have p: "parseTarget (Target ?cfg) = Inr (''mail.example.com'', 443, ''https'')" by code_simp
  have "fst ?get = Inr [leaf, issuer]" by code_simp
  then have g: "?get = (Inr [leaf, issuer], snd ?get)" by (metis prod.collapse)
  have ne: "[leaf, issuer] \<noteq> []" by simp
  have ff: "faultFree ?w" by (simp add: faultFree_def blank_def)
  from C6_bundle [OF p g ne ff] show ?thesis by (simp add: leaf_def issuer_def)
qed

text \<open>
  C9. For a non-empty chain, when no file operation fails: the run succeeds, the bundle
  file holds all blocks of the chain, and every certificate whose derived file name is
  already on disk finds that file with the contents it had before the run.
\<close>

theorem C9_collisions_kept:
  assumes "parseTarget (Target config) = Inr (server, port, protocol)"
    and "getCertificates protocol server port config w = (Inr certs, w1)"
    and "certs \<noteq> []" and "faultFree w"
  shows "fst (extractCertificates config w) = Inr () \<and>
         files (snd (extractCertificates config w)) (server @ ''_bundle.pem'')
           = Some (joinBlocks (map (\<lambda>c. pemBlock ''CERTIFICATE'' (Raw c)) certs)) \<and>
         (\<forall>i < length certs.
            files w (generateCertFilename (certs ! i) (i + 1)) \<noteq> None \<longrightarrow>
            files (snd (extractCertificates config w)) (generateCertFilename (certs ! i) (i + 1))
              = files w (generateCertFilename (certs ! i) (i + 1)))"
  using run_free [OF assms] name_not_bundle [of _ _ server]
  by (auto simp: map_add_def)

theorem C9_collisions_kept_witness:
  "fst (extractCertificates (config0\<lparr>Target := ''mail.example.com:443''\<rparr>)
          (blank\<lparr>replies := [Accept, Peer [leaf, issuer]],
                 files := [''mail.example.com.crt'' \<mapsto> ''old'']\<rparr>)) = Inr () \<and>
   files (snd (extractCertificates (config0\<lparr>Target := ''mail.example.com:443''\<rparr>)
          (blank\<lparr>replies := [Accept, Peer [leaf, issuer]],
                 files := [''mail.example.com.crt'' \<mapsto> ''old'']\<rparr>))) ''mail.example.com.crt''
     = Some ''old''"
proof -
  let ?cfg = "config0\<lparr>Target := ''mail.example.com:443''\<rparr>"
  let ?w = "blank\<lparr>replies := [Accept, Peer [leaf, issuer]],
                 files := [''mail.example.com.crt'' \<mapsto> ''old'']\<rparr>"
  let ?get = "getCertificates ''https'' ''mail.example.com'' 443 ?cfg ?w"
  have p: "parseTarget (Target ?cfg) = Inr (''mail.example.com'', 443, ''https'')" by code_simp
  have "fst ?get = Inr [leaf, issuer]" by code_simp
  then have g: "?get = (Inr [leaf, issuer], snd ?get)" by (metis prod.collapse)
  have ne: "[leaf, issuer] \<noteq> []" by simp
  have ff: "faultFree ?w" by (simp add: faultFree_def blank_def)
  have n: "generateCertFilename ([leaf, issuer] ! 0) (0 + 1) = ''mail.example.com.crt''" by code_simp
  have old: "files ?w ''mail.example.com.crt'' = Some ''old''" by simp
  from C9_collisions_kept [OF p g ne ff] have
    "fst (extractCertificates ?cfg ?w) = Inr ()"
    "\<forall>i < length [leaf, issuer].
            files ?w (generateCertFilename ([leaf, issuer] ! i) (i + 1)) \<noteq> None \<longrightarrow>
            files (snd (extractCertificates ?cfg ?w)) (generateCertFilename ([leaf, issuer] ! i) (i + 1))
              = files ?w (generateCertFilename ([leaf, issuer] ! i) (i + 1))"
    by blast+
  from this(1) this(2) [rule_format, of 0] show ?thesis unfolding n old by simp
qed

text \<open>
  The hypothesis of C6 and C9 is that no file operation fails, not merely that the run
  succeeds: \<open>createCertificateBundle\<close> drops the result of writing the separating
  newline, so a run in which only that write fails still succeeds, and leaves the two
  blocks without the newline between them.
\<close>

lemma separator_failure_dropped:
  "fst (createCertificateBundle [leaf, issuer] ''b.pem'' False
          (blank\<lparr>faults := [Succeeds, Succeeds, Fails 0]\<rparr>)) = Inr () \<and>
   files (snd (createCertificateBundle [leaf, issuer] ''b.pem'' False
          (blank\<lparr>faults := [Succeeds, Succeeds, Fails 0]\<rparr>))) ''b.pem''
     = Some (pemBlock ''CERTIFICATE'' (Raw leaf) @ pemBlock ''CERTIFICATE'' (Raw issuer))"
  by code_simp

subsection \<open>The individual files\<close>

lemma length_namedBlocks: "length (namedBlocks i certs) = length certs"
  by (induction certs arbitrary: i) auto

text \<open>
  C5, the claim as stated fails: a chain of two certificates with the same common name,
  on an empty disk and with no failing file operation, leaves one individual file, not
  two. No file of that name existed before.
\<close>

theorem C5_duplicate_names:
  "fst (createIndividualCertificates [leaf, leaf\<lparr>Raw := [0x31]\<rparr>] False blank) = Inr () \<and>
   dom (files blank) = {} \<and>
   dom (files (snd (createIndividualCertificates [leaf, leaf\<lparr>Raw := [0x31]\<rparr>] False blank)))
     = {''mail.example.com.crt''}"
proof -
  have ff: "faultFree blank" by (simp add: faultFree_def blank_def)
  have n: "generateCertFilename leaf (Suc 0) = ''mail.example.com.crt''"
    "generateCertFilename (leaf\<lparr>Raw := [0x31]\<rparr>) (Suc (Suc 0)) = ''mail.example.com.crt''"
    by code_simp+
  have names: "fst ` set (namedBlocks 0 [leaf, leaf\<lparr>Raw := [0x31]\<rparr>]) = {''mail.example.com.crt''}"
    by (simp add: n)
  have e: "dom (files blank) = {}" by (simp add: blank_def)
  from individualLoop_free [OF ff, of 0 "[leaf, leaf\<lparr>Raw := [0x31]\<rparr>]"]
  have "fst (createIndividualCertificates [leaf, leaf\<lparr>Raw := [0x31]\<rparr>] False blank) = Inr ()"
    and "dom (files (snd (createIndividualCertificates [leaf, leaf\<lparr>Raw := [0x31]\<rparr>] False blank)))
      = dom (files blank) \<union> fst ` set (namedBlocks 0 [leaf, leaf\<lparr>Raw := [0x31]\<rparr>])"
    by (simp_all add: createIndividualCertificates_def dom_map_of_conv_image_fst Un_commute)
  then show ?thesis unfolding names e by simp
qed

text \<open>
  C5, amended. When no file operation fails, the individual-file phase succeeds, and the
  disk afterwards is the disk from before plus, for each derived file name that was not
  on disk, one file holding the PEM block of the first certificate of the chain that has
  this name. So the number of files created is the number of distinct derived names not
  on disk before: a certificate whose name is on disk already, or is the name of an
  earlier certificate of the chain, gets no file. It is the number of certificates when
  the derived names are pairwise distinct and none is on disk.
\<close>

theorem C5_individual_files:
  assumes "faultFree w"
  shows "fst (createIndividualCertificates certs verbose w) = Inr () \<and>
         files (snd (createIndividualCertificates certs verbose w))
           = map_of (namedBlocks 0 certs) ++ files w \<and>
         card (dom (files (snd (createIndividualCertificates certs verbose w))) - dom (files w))
           = card (fst ` set (namedBlocks 0 certs) - dom (files w)) \<and>
         (distinct (map fst (namedBlocks 0 certs)) \<and> fst ` set (namedBlocks 0 certs) \<inter> dom (files w) = {}
            \<longrightarrow> card (dom (files (snd (createIndividualCertificates certs verbose w))) - dom (files w))
                  = length certs)"
proof -
  let ?w' = "snd (createIndividualCertificates certs verbose w)"
  let ?names = "fst ` set (namedBlocks 0 certs)"
  from individualLoop_free [OF assms, of 0 certs]
  have r: "fst (createIndividualCertificates certs verbose w) = Inr ()"
    and f: "files ?w' = map_of (namedBlocks 0 certs) ++ files w"
    by (simp_all add: createIndividualCertificates_def)
  have d: "dom (files ?w') - dom (files w) = ?names - dom (files w)"
    unfolding f by (auto simp: dom_map_of_conv_image_fst)
  have "card (?names - dom (files w)) = length certs"
    if "distinct (map fst (namedBlocks 0 certs))" "?names \<inter> dom (files w) = {}"
  proof -
    from that(2) have "?names - dom (files w) = set (map fst (namedBlocks 0 certs))" by auto
    with distinct_card [OF that(1)] show ?thesis by (simp add: length_namedBlocks)
  qed
  with r f d show ?thesis by simp
qed

theorem C5_individual_files_witness:
  "fst (createIndividualCertificates [leaf, issuer] False blank) = Inr () \<and>
   files (snd (createIndividualCertificates [leaf, issuer] False blank)) ''Example_CA.crt''
     = Some (pemBlock ''CERTIFICATE'' [0x30, 0x82]) \<and>
   card (dom (files (snd (createIndividualCertificates [leaf, issuer] False blank)))) = 2"
proof -
  have ff: "faultFree blank" by (simp add: faultFree_def blank_def)
  have n: "generateCertFilename leaf (Suc 0) = ''mail.example.com.crt''"
    "generateCertFilename issuer (Suc (Suc 0)) = ''Example_CA.crt''"
    by code_simp+
  have nb: "namedBlocks 0 [leaf, issuer]
      = [(''mail.example.com.crt'', pemBlock ''CERTIFICATE'' (Raw leaf)),
         (''Example_CA.crt'', pemBlock ''CERTIFICATE'' (Raw issuer))]"
    by (simp add: n)
  have e: "dom (files blank) = {}" "files blank = Map.empty" by (simp_all add: blank_def)
  have di: "distinct (map fst (namedBlocks 0 [leaf, issuer])) \<and> fst ` set (namedBlocks 0 [leaf, issuer]) \<inter> dom (files blank) = {}"
    unfolding nb e by simp
  from C5_individual_files [OF ff, of "[leaf, issuer]" False] di
  have "fst (createIndividualCertificates [leaf, issuer] False blank) = Inr ()"
    and "files (snd (createIndividualCertificates [leaf, issuer] False blank))
           = map_of (namedBlocks 0 [leaf, issuer]) ++ files blank"
    and "card (dom (files (snd (createIndividualCertificates [leaf, issuer] False blank))) - dom (files blank))
           = length [leaf, issuer]"
    by blast+
  then show ?thesis unfolding nb e by (simp add: issuer_def)
qed

subsection \<open>Failures while writing\<close>

lemma individualLoop_step_fails:
  assumes "\<not> osStat (generateCertFilename cert (i + 1)) w"
    and "osCreate (generateCertFilename cert (i + 1)) w = (Inl err, w')
         \<or> (\<exists>w1. osCreate (generateCertFilename cert (i + 1)) w = (Inr (), w1)
                \<and> pemEncode (generateCertFilename cert (i + 1)) ''CERTIFICATE'' (Raw cert) w1 = (Inl err, w'))"
  shows "individualLoop i (cert # rest) w = (Inl err, w')"
    and "files w f \<noteq> None \<Longrightarrow> files w' f = files w f"
proof -
  let ?name = "generateCertFilename cert (i + 1)"
  from assms(2) show "individualLoop i (cert # rest) w = (Inl err, w')"
    using assms(1) by (auto simp: Let_def)
  assume f: "files w f \<noteq> None"
  with assms(1) have ne: "f \<noteq> ?name" by (auto simp: osStat_def)
  from assms(2) show "files w' f = files w f"
  proof
    assume "osCreate ?name w = (Inl err, w')"
    then show ?thesis by (simp add: osCreate_fail_files)
  next
    assume "\<exists>w1. osCreate ?name w = (Inr (), w1)
                \<and> pemEncode ?name ''CERTIFICATE'' (Raw cert) w1 = (Inl err, w')"
    then obtain w1 where 1: "osCreate ?name w = (Inr (), w1)"
      and 2: "pemEncode ?name ''CERTIFICATE'' (Raw cert) w1 = (Inl err, w')" by blast
    from osCreate_ok_files [OF 1] ne have "files w1 f = files w f" by simp
    moreover from 2 fileWrite_other [OF ne, of "pemBlock ''CERTIFICATE'' (Raw cert)" w1]
    have "files w' f = files w1 f" by (simp add: pemEncode_def)
    ultimately show ?thesis by simp
  qed
qed

text \<open>
  C10. The bundle file is written first; the individual files follow, one certificate
  after the other. Suppose the bundle is written, the files for the first \<open>i\<close>
  certificates are dealt with, and then creating the file for certificate \<open>i\<close>, or
  encoding into it, fails. Then the run ends with the error of the individual-file phase,
  and nothing is rolled back: every file on disk at the moment of the failure is still
  there with the same contents, among them the bundle file, as the bundle phase left it,
  and the file of each certificate before \<open>i\<close>.
\<close>

theorem C10_not_atomic:
  assumes "parseTarget (Target config) = Inr (server, port, protocol)"
    and "getCertificates protocol server port config w = (Inr certs, w1)"
    and "createCertificateBundle certs (server @ ''_bundle.pem'') (Verbose config) w1 = (Inr (), w2)"
    and "i < length certs"
    and "individualLoop 0 (take i certs) w2 = (Inr (), w3)"
    and "\<not> osStat (generateCertFilename (certs ! i) (i + 1)) w3"
    and "osCreate (generateCertFilename (certs ! i) (i + 1)) w3 = (Inl err, w4)
         \<or> (\<exists>w'. osCreate (generateCertFilename (certs ! i) (i + 1)) w3 = (Inr (), w')
                \<and> pemEncode (generateCertFilename (certs ! i) (i + 1)) ''CERTIFICATE'' (Raw (certs ! i)) w' = (Inl err, w4))"
  shows "extractCertificates config w = (Inl (FailedToCreateIndividual err), w4) \<and>
         files w2 (server @ ''_bundle.pem'') \<noteq> None \<and>
         files w4 (server @ ''_bundle.pem'') = files w2 (server @ ''_bundle.pem'') \<and>
         (\<forall>j < i. files w4 (generateCertFilename (certs ! j) (j + 1)) \<noteq> None) \<and>
         (\<forall>f. files w3 f \<noteq> None \<longrightarrow> files w4 f = files w3 f)"
proof -
  let ?bf = "server @ ''_bundle.pem''"
  let ?post = "drop (Suc i) certs"
  note step = individualLoop_step_fails(1) [OF assms(6,7)] individualLoop_step_fails(2) [OF assms(6,7)]
  have certs: "certs = take i certs @ certs ! i # ?post"
    using assms(4) by (rule id_take_nth_drop)
  have len: "length (take i certs) = i" using assms(4) by simp
  have "individualLoop 0 (take i certs @ certs ! i # ?post) w2
      = individualLoop i (certs ! i # ?post) w3"
    by (simp only: individualLoop_append assms(5) prod.case sum.case len add_0)
  with step(1) have "individualLoop 0 (take i certs @ certs ! i # ?post) w2 = (Inl err, w4)"
    by (simp only:)
  with certs have ind: "createIndividualCertificates certs (Verbose config) w2 = (Inl err, w4)"
    by (simp add: createIndividualCertificates_def)
  from assms(4) have ne: "certs \<noteq> []" by auto
  have run: "extractCertificates config w = (Inl (FailedToCreateIndividual err), w4)"
    using extract_run [OF assms(1,2) ne] assms(3) ind by simp
  have b2: "files w2 ?bf \<noteq> None"
    using assms(3) by (rule createCertificateBundle_dom)
  then obtain d where d: "files w2 ?bf = Some d" by auto
  from individualLoop_keeps [OF assms(5) d] have b3: "files w3 ?bf = Some d" .
  with step(2) [of ?bf] d have b4: "files w4 ?bf = files w2 ?bf" by simp
  have earlier: "files w4 (generateCertFilename (certs ! j) (j + 1)) \<noteq> None" if "j < i" for j
  proof -
    from that len have "j < length (take i certs)" by simp
    from individualLoop_present [OF assms(5) this] that
    have "files w3 (generateCertFilename (certs ! j) (j + 1)) \<noteq> None" by simp
    with step(2) show ?thesis by simp
  qed
  from run b2 b4 earlier step(2) show ?thesis by blast
qed

theorem C10_not_atomic_witness:
  "fst (extractCertificates (config0\<lparr>Target := ''mail.example.com''\<rparr>)
          (blank\<lparr>replies := [Accept, Peer [leaf, issuer]],
                 faults := [Succeeds, Succeeds, Succeeds, Succeeds, Succeeds, Succeeds, Fails 0]\<rparr>))
     = Inl (FailedToCreateIndividual (CreateError ''Example_CA.crt'')) \<and>
   files (snd (extractCertificates (config0\<lparr>Target := ''mail.example.com''\<rparr>)
          (blank\<lparr>replies := [Accept, Peer [leaf, issuer]],
                 faults := [Succeeds, Succeeds, Succeeds, Succeeds, Succeeds, Succeeds, Fails 0]\<rparr>)))
       ''mail.example.com_bundle.pem'' \<noteq> None \<and>
   files (snd (extractCertificates (config0\<lparr>Target := ''mail.example.com''\<rparr>)
          (blank\<lparr>replies := [Accept, Peer [leaf, issuer]],
                 faults := [Succeeds, Succeeds, Succeeds, Succeeds, Succeeds, Succeeds, Fails 0]\<rparr>)))
       ''mail.example.com.crt'' \<noteq> None"
proof -
  let ?cfg = "config0\<lparr>Target := ''mail.example.com''\<rparr>"
  let ?w = "blank\<lparr>replies := [Accept, Peer [leaf, issuer]],
                 faults := [Succeeds, Succeeds, Succeeds, Succeeds, Succeeds, Succeeds, Fails 0]\<rparr>"
  let ?certs = "[leaf, issuer]"
  let ?get = "getCertificates ''https'' ''mail.example.com'' 443 ?cfg ?w"
  let ?w1 = "snd ?get"
  let ?bun = "createCertificateBundle ?certs (''mail.example.com'' @ ''_bundle.pem'') (Verbose ?cfg) ?w1"
  let ?w2 = "snd ?bun"
  let ?ind = "individualLoop 0 (take 1 ?certs) ?w2"
  let ?w3 = "snd ?ind"
  let ?name = "generateCertFilename (?certs ! 1) (1 + 1)"
  let ?cre = "osCreate ?name ?w3"
  let ?w4 = "snd ?cre"
  have p: "parseTarget (Target ?cfg) = Inr (''mail.example.com'', 443, ''https'')" by code_simp
  have "fst ?get = Inr ?certs" by code_simp
  then have g: "?get = (Inr ?certs, ?w1)" by (metis prod.collapse)
  have "fst ?bun = Inr ()" by code_simp
  then have b: "?bun = (Inr (), ?w2)" by (metis prod.collapse)
  have i: "1 < length ?certs" by simp
  have "fst ?ind = Inr ()" by code_simp
  then have before: "?ind = (Inr (), ?w3)" by (metis prod.collapse)
  have absent: "\<not> osStat ?name ?w3" by code_simp
  have "fst ?cre = Inl (CreateError ''Example_CA.crt'')" by code_simp
  then have "?cre = (Inl (CreateError ''Example_CA.crt''), ?w4)" by (metis prod.collapse)
  then have fails: "?cre = (Inl (CreateError ''Example_CA.crt''), ?w4)
      \<or> (\<exists>w'. ?cre = (Inr (), w')
            \<and> pemEncode ?name ''CERTIFICATE'' (Raw (?certs ! 1)) w' = (Inl (CreateError ''Example_CA.crt''), ?w4))"
    by (rule disjI1)
  have n0: "generateCertFilename (?certs ! 0) (0 + 1) = ''mail.example.com.crt''" by code_simp
  from C10_not_atomic [OF p g b i before absent fails]
  have 1: "extractCertificates ?cfg ?w = (Inl (FailedToCreateIndividual (CreateError ''Example_CA.crt'')), ?w4)"
    and 2: "files ?w2 (''mail.example.com'' @ ''_bundle.pem'') \<noteq> None"
    and 3: "files ?w4 (''mail.example.com'' @ ''_bundle.pem'') = files ?w2 (''mail.example.com'' @ ''_bundle.pem'')"
    and 4: "\<forall>j < 1. files ?w4 (generateCertFilename (?certs ! j) (j + 1)) \<noteq> None"
    by blast+
  from 4 have 5: "files ?w4 (generateCertFilename (?certs ! 0) (0 + 1)) \<noteq> None" by blast
  from 1 2 3 5 show ?thesis unfolding n0 by simp
qed

subsection \<open>Connections\<close>

text \<open>
  C4, the claim as stated fails for smtp: a run that succeeds has opened two TCP
  connections, the first for the session of the \<open>net/smtp\<close> client, the second for the
  program's own STARTTLS exchange.
\<close>

theorem C4_smtp_two_connections:
  "fst (extractCertificates (config0\<lparr>Target := ''smtp://mail.example.com''\<rparr>)
          (blank\<lparr>replies := [Accept, Accept, Accept, Accept, Accept, Accept, Accept, Accept,
                              Accept, Accept, Peer [leaf]]\<rparr>)) = Inr () \<and>
   conns (snd (extractCertificates (config0\<lparr>Target := ''smtp://mail.example.com''\<rparr>)
          (blank\<lparr>replies := [Accept, Accept, Accept, Accept, Accept, Accept, Accept, Accept,
                              Accept, Accept, Peer [leaf]]\<rparr>))) = 2"
  by code_simp

text \<open>
  C4, amended. A run whose target resolves opens at most one TCP connection for every
  protocol other than smtp, and exactly one when it succeeds. For smtp it opens at most
  two, and exactly two when it succeeds: one for the SMTP client session that is tried
  first, and, once that session has started TLS and has been closed, a second one on
  which the certificates are fetched. No run opens more than two.
\<close>

theorem C4_connections:
  assumes "parseTarget (Target config) = Inr (server, port, protocol)"
  shows "conns (snd (extractCertificates config w))
           \<le> conns w + (if protocol = ''smtp'' then 2 else 1) \<and>
         (fst (extractCertificates config w) = Inr () \<longrightarrow>
            conns (snd (extractCertificates config w))
              = conns w + (if protocol = ''smtp'' then 2 else 1))"
proof -
  let ?n = "if protocol = ''smtp'' then 2 else (1 :: nat)"
  obtain r1 w1 where 1: "getCertificates protocol server port config w = (r1, w1)"
    by (cases "getCertificates protocol server port config w")
  note e1 = getCertificates_frame(3,4) [OF 1]
  show ?thesis
  proof (cases r1)
    case (Inl e)
    with assms 1 have "extractCertificates config w = (Inl (FailedToGetCertificates e), w1)"
      by (simp add: extractCertificates_def)
    with e1(1) show ?thesis by simp
  next
    case (Inr certs)
    with e1(2) have c1: "conns w1 = conns w + ?n" by simp
    show ?thesis
    proof (cases "certs = []")
      case True
      with assms 1 Inr have "extractCertificates config w = (Inl NoCertificatesFound, w1)"
        by (simp add: extractCertificates_def)
      with c1 show ?thesis by simp
    next
      case False
      let ?bf = "server @ ''_bundle.pem''"
      obtain r2 w2 where 2: "createCertificateBundle certs ?bf (Verbose config) w1 = (r2, w2)"
        by (cases "createCertificateBundle certs ?bf (Verbose config) w1")
      with createCertificateBundle_conns [of certs ?bf "Verbose config" w1]
      have c2: "conns w2 = conns w1" by simp
      obtain r3 w3 where 3: "createIndividualCertificates certs (Verbose config) w2 = (r3, w3)"
        by (cases "createIndividualCertificates certs (Verbose config) w2")
      with individualLoop_conns [of 0 certs w2]
      have c3: "conns w3 = conns w2" by (simp add: createIndividualCertificates_def)
      from 1 Inr have g: "getCertificates protocol server port config w = (Inr certs, w1)" by simp
      have "snd (extractCertificates config w) = w2 \<or> snd (extractCertificates config w) = w3"
        using extract_run [OF assms g False] 2 3 by (cases r2; cases r3) simp_all
      with c1 c2 c3 show ?thesis by auto
    qed
  qed
qed

theorem C4_connections_witness:
  "fst (extractCertificates (config0\<lparr>Target := ''imap://mail.example.com''\<rparr>)
          (blank\<lparr>replies := [Accept, Accept, Accept, Accept, Peer [leaf]]\<rparr>)) = Inr () \<and>
   conns (snd (extractCertificates (config0\<lparr>Target := ''imap://mail.example.com''\<rparr>)
          (blank\<lparr>replies := [Accept, Accept, Accept, Accept, Peer [leaf]]\<rparr>))) = 1"
proof -
  let ?cfg = "config0\<lparr>Target := ''imap://mail.example.com''\<rparr>"
  let ?w = "blank\<lparr>replies := [Accept, Accept, Accept, Accept, Peer [leaf]]\<rparr>"
  have p: "parseTarget (Target ?cfg) = Inr (''mail.example.com'', 143, ''imap'')" by code_simp
  have ok: "fst (extractCertificates ?cfg ?w) = Inr ()" by code_simp
  have c: "conns ?w = 0" by (simp add: blank_def)
  from C4_connections [OF p, of ?w] ok c show ?thesis by simp
qed

end
